theory Spec2Isabelle
  imports Complex_Main "HOL-Library.Sublist"
begin

section \<open>Strings\<close>

text \<open>
  A JavaScript string is a sequence of code units. The model uses \<^typ>\<open>string\<close>, one
  \<^typ>\<open>char\<close> per code unit, which covers the code units \<open>0x00\<close> to \<open>0xFF\<close>. Within that
  range the white space of \<open>String.prototype.trim\<close> and of the regular expression class
  \<open>\s\<close> is TAB, LF, VT, FF, CR, SPACE and NO-BREAK SPACE.
\<close>

definition isWhiteSpace :: "char \<Rightarrow> bool" where
  "isWhiteSpace c = (c \<in> set [CHR 0x09, CHR 0x0A, CHR 0x0B, CHR 0x0C, CHR 0x0D, CHR 0x20, CHR 0xA0])"

definition trim :: "string \<Rightarrow> string" where
  "trim s = rev (dropWhile isWhiteSpace (rev (dropWhile isWhiteSpace s)))"

text \<open>\<open>splitAtFirst p s\<close> finds the first occurrence of \<open>p\<close> in \<open>s\<close> and returns what
  precedes it and what follows it.\<close>

fun splitAtFirst :: "string \<Rightarrow> string \<Rightarrow> (string \<times> string) option" where
  "splitAtFirst p [] = (if p = [] then Some ([], []) else None)"
| "splitAtFirst p (c # cs) =
     (if prefix p (c # cs) then Some ([], drop (length p) (c # cs))
      else (case splitAtFirst p cs of
              None \<Rightarrow> None
            | Some (before, rest) \<Rightarrow> Some (c # before, rest)))"

definition occursIn :: "string \<Rightarrow> string \<Rightarrow> bool" where
  "occursIn p s = (splitAtFirst p s \<noteq> None)"

text \<open>\<open>String.prototype.toLowerCase\<close> on the code units \<open>0x00\<close> to \<open>0xFF\<close>: the letters
  \<open>A\<close> to \<open>Z\<close> and the Latin-1 capitals \<open>0xC0\<close> to \<open>0xDE\<close> (without the multiplication sign
  \<open>0xD7\<close>) move up by 32.\<close>

definition isUpper :: "char \<Rightarrow> bool" where
  "isUpper c = (let n = (of_char c :: nat)
                in (65 \<le> n \<and> n \<le> 90) \<or> (192 \<le> n \<and> n \<le> 222 \<and> n \<noteq> 215))"

definition toLowerCase :: "string \<Rightarrow> string" where
  "toLowerCase s = map (\<lambda>c. if isUpper c then char_of ((of_char c :: nat) + 32) else c) s"

text \<open>\<open>Array.prototype.join\<close> on strings.\<close>

fun join :: "string \<Rightarrow> string list \<Rightarrow> string" where
  "join sep [] = []"
| "join sep [x] = x"
| "join sep (x # y # ys) = x @ sep @ join sep (y # ys)"

section \<open>Text cleaning (\<open>cleanLlmOutput\<close>)\<close>

text \<open>
  \<open>text.replace(/<think>[\s\S]*?<\/think>/g, '')\<close>: the scan goes left to right; at an
  opening marker the lazy quantifier stops at the first closing marker after it; the match
  is dropped and the scan resumes behind it. An opening marker with no closing marker
  behind it is no match, and the scan moves on by one code unit.
\<close>

lemma splitAtFirst_length:
  "splitAtFirst p s = Some (before, rest) \<Longrightarrow> length rest \<le> length s"
proof (induction s arbitrary: before rest)
  case Nil
  then show ?case by (simp split: if_splits)
next
  case (Cons c cs)
  then show ?case
    by (fastforce split: if_splits option.splits prod.splits)
qed

function removeThinkBlocks :: "string \<Rightarrow> string" where
  "removeThinkBlocks [] = []"
| "removeThinkBlocks (c # cs) =
     (if prefix ''<think>'' (c # cs)
      then (case splitAtFirst ''</think>'' (drop 7 (c # cs)) of
              Some (body, rest) \<Rightarrow> removeThinkBlocks rest
            | None \<Rightarrow> c # removeThinkBlocks cs)
      else c # removeThinkBlocks cs)"
  by pat_completeness auto
termination
  by (relation "measure length")
     (auto dest!: splitAtFirst_length simp del: splitAtFirst.simps)

text \<open>
  \<open>cleaned.replace(/```(json|python|bash)?/g, '')\<close>: three backticks and, when one of
  the three language tags follows directly, the tag too.
\<close>

definition dropLanguageTag :: "string list \<Rightarrow> string \<Rightarrow> string" where
  "dropLanguageTag tags s =
     (case filter (\<lambda>t. prefix t s) tags of
        [] \<Rightarrow> s
      | t # _ \<Rightarrow> drop (length t) s)"

function removeFences :: "string \<Rightarrow> string" where
  "removeFences [] = []"
| "removeFences (c # cs) =
     (if prefix ''```'' (c # cs)
      then removeFences (dropLanguageTag [''json'', ''python'', ''bash''] (drop 3 (c # cs)))
      else c # removeFences cs)"
  by pat_completeness auto
termination
  by (relation "measure length")
     (auto simp: dropLanguageTag_def split: list.splits)

definition cleanLlmOutput :: "string \<Rightarrow> string" where
  "cleanLlmOutput text =
     (let cleaned = trim (removeThinkBlocks text)
      in trim (removeFences cleaned))"

section \<open>JavaScript values and errors\<close>

text \<open>
  What \<open>JSON.parse\<close> returns. An object is the list of its own properties in insertion
  order, each name once. \<open>undefined\<close> is \<open>None\<close> of \<open>json option\<close>. A number is given by
  its exact value, which is finite.
\<close>

datatype json =
    JNull
  | JBool bool
  | JNumber rat
  | JString string
  | JArray "json list"
  | JObject "(string \<times> json) list"

fun truthy :: "json \<Rightarrow> bool" where
  "truthy JNull = False"
| "truthy (JBool b) = b"
| "truthy (JNumber n) = (n \<noteq> 0)"
| "truthy (JString s) = (s \<noteq> [])"
| "truthy (JArray xs) = True"
| "truthy (JObject kvs) = True"

definition truthyVal :: "json option \<Rightarrow> bool" where
  "truthyVal v = (case v of None \<Rightarrow> False | Some j \<Rightarrow> truthy j)"

definition truthyStr :: "string option \<Rightarrow> bool" where
  "truthyStr v = (case v of None \<Rightarrow> False | Some s \<Rightarrow> s \<noteq> [])"

text \<open>\<open>a || b\<close> on optional strings.\<close>

definition orElse :: "string option \<Rightarrow> string option \<Rightarrow> string option" where
  "orElse a b = (if truthyStr a then a else b)"

datatype js_error = Error string | SyntaxError string | TypeError string

fun message :: "js_error \<Rightarrow> string" where
  "message (Error m) = m"
| "message (SyntaxError m) = m"
| "message (TypeError m) = m"

fun errorName :: "js_error \<Rightarrow> string" where
  "errorName (Error m) = ''Error''"
| "errorName (SyntaxError m) = ''SyntaxError''"
| "errorName (TypeError m) = ''TypeError''"

text \<open>\<open>Error.prototype.toString\<close>, as the template literal \<open>`${e}`\<close> calls it.\<close>

definition errorToString :: "js_error \<Rightarrow> string" where
  "errorToString e = (if message e = [] then errorName e else errorName e @ '': '' @ message e)"

section \<open>Types of the application (\<open>types.ts\<close>)\<close>

datatype AnalysisStep =
  IDLE | ANALYST | WAITING_FOR_USER | ARCHITECT | CODER | AUDITOR | COMPLETE | ERROR

datatype LlmProvider = provider_google | provider_openrouter

fun providerName :: "LlmProvider \<Rightarrow> string" where
  "providerName provider_google = ''google''"
| "providerName provider_openrouter = ''openrouter''"

record ApiKeys =
  google :: string
  openrouter :: string

record ModelSelection =
  provider :: LlmProvider
  model :: string

type_synonym ModelConfig = "AnalysisStep \<Rightarrow> ModelSelection"

text \<open>A File Map is an object used as a dictionary: its own properties in insertion order.
  \<open>FileMap\<close> is the declared type, with string contents; the Coder's map is filled from
  parsed JSON, whose contents are whatever the model wrote.\<close>

type_synonym FileMap = "(string \<times> string) list"
type_synonym GeneratedFiles = "(string \<times> json) list"

record Usage =
  usage_input :: nat
  usage_output :: nat
  usage_total :: nat

datatype LogType = log_prompt | log_response | log_info | log_error

text \<open>A Log Entry without its \<open>timestamp\<close> and \<open>durationMs\<close>, which read the clock.\<close>

record LogEntry =
  step :: AnalysisStep
  entry_type :: LogType
  content :: string
  tokens :: "Usage option"

datatype SchemaType = STRING | NUMBER | INTEGER | BOOLEAN | ARRAY | OBJECT

fun SchemaType_value :: "SchemaType \<Rightarrow> string" where
  "SchemaType_value STRING = ''STRING''"
| "SchemaType_value NUMBER = ''NUMBER''"
| "SchemaType_value INTEGER = ''INTEGER''"
| "SchemaType_value BOOLEAN = ''BOOLEAN''"
| "SchemaType_value ARRAY = ''ARRAY''"
| "SchemaType_value OBJECT = ''OBJECT''"

text \<open>A node of the vendor-neutral schema; \<open>None\<close> is an absent field, and \<open>properties\<close>
  is an object: its own properties in insertion order, each name once.\<close>

datatype ResponseSchema = ResponseSchema
  (type: SchemaType)
  (description: "string option")
  (properties: "(string \<times> ResponseSchema) list option")
  (items: "ResponseSchema option")
  (enum: "string list option")
  (required: "string list option")

section \<open>Objects as dictionaries\<close>

text \<open>\<open>defineProperty\<close> creates or overwrites an own property (object literals, spread).
  \<open>setProperty\<close> is the assignment \<open>obj[k] = v\<close> on an object created by \<open>{}\<close>: the name
  \<open>__proto__\<close> reaches the setter of \<open>Object.prototype\<close> and creates no own property.\<close>

fun defineProperty :: "(string \<times> 'a) list \<Rightarrow> string \<Rightarrow> 'a \<Rightarrow> (string \<times> 'a) list" where
  "defineProperty [] k v = [(k, v)]"
| "defineProperty ((k', v') # m) k v =
     (if k' = k then (k, v) # m else (k', v') # defineProperty m k v)"

definition setProperty :: "(string \<times> 'a) list \<Rightarrow> string \<Rightarrow> 'a \<Rightarrow> (string \<times> 'a) list" where
  "setProperty m k v = (if k = ''__proto__'' then m else defineProperty m k v)"

text \<open>\<open>Object.entries\<close>: array indices first, in ascending order, then the other names in
  insertion order.\<close>

definition isDigit :: "char \<Rightarrow> bool" where
  "isDigit c = (c \<in> set ''0123456789'')"

definition decimalValue :: "string \<Rightarrow> nat" where
  "decimalValue s = foldl (\<lambda>n c. 10 * n + (of_char c - 48)) 0 s"

definition isArrayIndex :: "string \<Rightarrow> bool" where
  "isArrayIndex s =
     (s \<noteq> [] \<and> list_all isDigit s \<and> (s = ''0'' \<or> hd s \<noteq> CHR ''0'')
      \<and> decimalValue s < 4294967295)"

definition entries :: "(string \<times> 'a) list \<Rightarrow> (string \<times> 'a) list" where
  "entries m =
     sort_key (\<lambda>(k, v). decimalValue k) (filter (\<lambda>(k, v). isArrayIndex k) m)
       @ filter (\<lambda>(k, v). \<not> isArrayIndex k) m"

lemma set_entries: "set (entries m) = set m"
  by (auto simp: entries_def)

section \<open>Schema translation (\<open>mapToJsonSchema\<close>)\<close>

text \<open>The object that \<open>mapToJsonSchema\<close> builds: a field is \<open>None\<close> when it was never
  assigned. \<open>out.properties\<close> starts as \<open>{}\<close> and is filled by assignment, one child of
  \<open>Object.entries(schema.properties)\<close> after the other.\<close>

datatype JsonSchema = JsonSchema
  (js_type: string)
  (js_description: "string option")
  (js_enum: "string list option")
  (js_required: "string list option")
  (js_properties: "(string \<times> JsonSchema) list option")
  (js_additionalProperties: "bool option")
  (js_items: "JsonSchema option")

function mapToJsonSchema :: "ResponseSchema \<Rightarrow> JsonSchema" where
  "mapToJsonSchema (ResponseSchema t d ps it en rq) =
     JsonSchema
       (toLowerCase (SchemaType_value t))
       (if truthyStr d then d else None)
       en
       rq
       (case ps of
          None \<Rightarrow> None
        | Some kvs \<Rightarrow>
            Some (foldl (\<lambda>out (key, prop). setProperty out key (mapToJsonSchema prop))
                    [] (entries kvs)))
       (case ps of None \<Rightarrow> None | Some kvs \<Rightarrow> Some False)
       (case it of None \<Rightarrow> None | Some i \<Rightarrow> Some (mapToJsonSchema i))"
  by pat_completeness auto
termination
proof (relation "measure size", goal_cases)
  case 1
  show ?case by simp
next
  case (2 t d ps it en rq kvs out kp k child)
  then have "(k, child) \<in> set kvs"
    by (simp add: set_entries)
  then have "size child < Suc (size_list (size_prod (\<lambda>_. 0) size) kvs)"
    by (induction kvs) auto
  with 2 show ?case by simp
next
  case 3
  then show ?case by simp
qed

text \<open>All nodes of a schema, the node itself first, then the nodes of its properties and of
  its element schema.\<close>

fun nodes :: "ResponseSchema \<Rightarrow> ResponseSchema list" where
  "nodes (ResponseSchema t d ps it en rq) =
     ResponseSchema t d ps it en rq
       # (case ps of None \<Rightarrow> [] | Some kvs \<Rightarrow> concat (map (\<lambda>(key, prop). nodes prop) kvs))
       @ (case it of None \<Rightarrow> [] | Some i \<Rightarrow> nodes i)"

fun jsonSchemaNodes :: "JsonSchema \<Rightarrow> JsonSchema list" where
  "jsonSchemaNodes (JsonSchema t d en rq ps ap it) =
     JsonSchema t d en rq ps ap it
       # (case ps of None \<Rightarrow> [] | Some kvs \<Rightarrow> concat (map (\<lambda>(key, prop). jsonSchemaNodes prop) kvs))
       @ (case it of None \<Rightarrow> [] | Some i \<Rightarrow> jsonSchemaNodes i)"

text \<open>The invariant of the data model: an \<open>OBJECT\<close> node defines \<open>properties\<close>, an \<open>ARRAY\<close>
  node defines \<open>items\<close>.\<close>

definition wellFormedNode :: "ResponseSchema \<Rightarrow> bool" where
  "wellFormedNode n =
     ((type n = OBJECT \<longrightarrow> properties n \<noteq> None) \<and> (type n = ARRAY \<longrightarrow> items n \<noteq> None))"

definition wellFormed :: "ResponseSchema \<Rightarrow> bool" where
  "wellFormed s = list_all wellFormedNode (nodes s)"

definition lowercaseTypeNames :: "string list" where
  "lowercaseTypeNames = [''string'', ''number'', ''integer'', ''boolean'', ''array'', ''object'']"

text \<open>Schemas whose nodes have pairwise distinct property names, none of them
  \<open>__proto__\<close>.\<close>

definition ordinaryNames :: "ResponseSchema \<Rightarrow> bool" where
  "ordinaryNames s =
     list_all (\<lambda>n. case properties n of
                    None \<Rightarrow> True
                  | Some kvs \<Rightarrow> distinct (map fst kvs) \<and> ''__proto__'' \<notin> set (map fst kvs))
       (nodes s)"

section \<open>The platform\<close>

text \<open>
  What the code calls and does not define: the JSON parser, the string conversion of values
  that are no strings, the browser's storage, the process environment and the two provider
  backends. \<open>transport\<close> is one round trip of a Provider Client (the request it builds, the
  vendor SDK and the normalisation of the answer); \<open>Inl\<close> carries the message of the error
  the SDK raised. The wording of the four prompt templates of \<open>PROMPTS\<close> is a parameter
  too.
\<close>

record GenerateContentParams =
  params_model :: string
  params_systemInstruction :: "string option"
  params_prompt :: string
  params_responseSchema :: "ResponseSchema option"
  params_responseMimeType :: "string option"

record GenerateContentResult =
  response_text :: string
  response_usage :: "Usage option"

record platform =
  JSON_parse :: "string \<Rightarrow> string + json"
  ToString :: "json \<Rightarrow> string"
  nullPropertyMessage :: "string \<Rightarrow> string"
  coercedGreaterThanZero :: "json \<Rightarrow> bool"
  window_defined :: bool
  localStorage :: "string \<Rightarrow> string option"
  process_env :: "string \<Rightarrow> string option"
  transport :: "LlmProvider \<Rightarrow> string \<Rightarrow> GenerateContentParams \<Rightarrow> string + GenerateContentResult"
  PROMPTS_ANALYST :: "string \<Rightarrow> string"
  PROMPTS_ARCHITECT :: "json \<Rightarrow> string \<Rightarrow> string"
  PROMPTS_CODER :: "string \<Rightarrow> string \<Rightarrow> string"
  PROMPTS_AUDITOR :: "string \<Rightarrow> string \<Rightarrow> string"

text \<open>Reading a property whose name is no built-in member of strings, arrays, numbers or
  booleans: \<open>null\<close> raises, an object answers with its own property, everything else with
  \<open>undefined\<close>.\<close>

definition getProp :: "platform \<Rightarrow> json \<Rightarrow> string \<Rightarrow> js_error + json option" where
  "getProp env v name =
     (case v of
        JNull \<Rightarrow> Inl (TypeError (nullPropertyMessage env name))
      | JObject kvs \<Rightarrow> Inr (map_of kvs name)
      | _ \<Rightarrow> Inr None)"

text \<open>The property \<open>length\<close> of a value that is not \<open>null\<close>.\<close>

definition lengthOf :: "json \<Rightarrow> json option" where
  "lengthOf v =
     (case v of
        JString s \<Rightarrow> Some (JNumber (of_nat (length s)))
      | JArray xs \<Rightarrow> Some (JNumber (of_nat (length xs)))
      | JObject kvs \<Rightarrow> map_of kvs ''length''
      | _ \<Rightarrow> None)"

text \<open>\<open>v > 0\<close>: \<open>undefined\<close> is \<open>NaN\<close>, \<open>null\<close> is 0, \<open>true\<close> is 1; strings, arrays and objects
  are converted by the platform.\<close>

definition greaterThanZero :: "platform \<Rightarrow> json option \<Rightarrow> bool" where
  "greaterThanZero env v =
     (case v of
        None \<Rightarrow> False
      | Some JNull \<Rightarrow> False
      | Some (JBool b) \<Rightarrow> b
      | Some (JNumber n) \<Rightarrow> 0 < n
      | Some other \<Rightarrow> coercedGreaterThanZero env other)"

text \<open>A value as a property key or inside a template literal.\<close>

definition stringOf :: "platform \<Rightarrow> json \<Rightarrow> string" where
  "stringOf env v = (case v of JString s \<Rightarrow> s | _ \<Rightarrow> ToString env v)"

section \<open>Credentials (\<open>settingsManager.ts\<close>, \<open>resolveApiKey\<close>)\<close>

text \<open>\<open>provider.toUpperCase()\<close> on the two provider identifiers.\<close>

fun providerUpperCase :: "LlmProvider \<Rightarrow> string" where
  "providerUpperCase provider_google = ''GOOGLE''"
| "providerUpperCase provider_openrouter = ''OPENROUTER''"

definition getStoredApiKey :: "platform \<Rightarrow> LlmProvider \<Rightarrow> string option" where
  "getStoredApiKey env p =
     (if \<not> window_defined env then None
      else (let storedKey = localStorage env (providerUpperCase p @ ''_API_KEY'')
            in if truthyStr storedKey then storedKey
               else (case p of
                       provider_google \<Rightarrow> process_env env ''API_KEY''
                     | provider_openrouter \<Rightarrow> process_env env ''OPENROUTER_API_KEY'')))"

definition resolveApiKey :: "platform \<Rightarrow> LlmProvider \<Rightarrow> ApiKeys option \<Rightarrow> string option" where
  "resolveApiKey env p sessionKeys =
     (case sessionKeys of
        None \<Rightarrow> getStoredApiKey env p
      | Some ks \<Rightarrow>
          (if p = provider_google \<and> google ks \<noteq> [] then Some (google ks)
           else if p = provider_openrouter \<and> openrouter ks \<noteq> [] then Some (openrouter ks)
           else getStoredApiKey env p))"

section \<open>Provider clients (\<open>llmFactory.ts\<close>)\<close>

record LlmClient =
  client_provider :: LlmProvider
  client_key :: string

definition createLlmClient :: "platform \<Rightarrow> LlmProvider \<Rightarrow> string option \<Rightarrow> js_error + LlmClient" where
  "createLlmClient env p apiKey =
     (case p of
        provider_google \<Rightarrow>
          (let key = orElse (orElse apiKey (process_env env ''API_KEY''))
                            (process_env env ''NEXT_PUBLIC_GOOGLE_API_KEY'')
           in (case key of
                 Some k \<Rightarrow> (if k \<noteq> [] then Inr \<lparr>client_provider = p, client_key = k\<rparr>
                            else Inl (Error ''Google API Key missing.''))
               | None \<Rightarrow> Inl (Error ''Google API Key missing.'')))
      | provider_openrouter \<Rightarrow>
          (let key = orElse (orElse apiKey (process_env env ''OPENROUTER_API_KEY''))
                            (process_env env ''NEXT_PUBLIC_OPENROUTER_API_KEY'')
           in (case key of
                 Some k \<Rightarrow> (if k \<noteq> [] then Inr \<lparr>client_provider = p, client_key = k\<rparr>
                            else Inl (Error ''OpenRouter API Key missing.''))
               | None \<Rightarrow> Inl (Error ''OpenRouter API Key missing.''))))"

text \<open>\<open>generateContent\<close> of both clients: the answer of the backend, or a new \<open>Error\<close> whose
  message starts with the provider's name and the model.\<close>

definition generateContent :: "platform \<Rightarrow> LlmClient \<Rightarrow> GenerateContentParams \<Rightarrow> js_error + GenerateContentResult" where
  "generateContent env client params =
     (case transport env (client_provider client) (client_key client) params of
        Inr result \<Rightarrow> Inr result
      | Inl msg \<Rightarrow>
          (case client_provider client of
             provider_google \<Rightarrow>
               Inl (Error (''Google AI Error ('' @ params_model params @ ''): '' @ msg))
           | provider_openrouter \<Rightarrow>
               Inl (Error (''OpenRouter Error ('' @ params_model params @ ''): '' @ msg))))"

section \<open>Run state\<close>

text \<open>
  What a run leaves behind: the steps reported through \<open>onProgress\<close>, the entries handed to
  \<open>onLog\<close>, and the requests handed to a provider client, each list in the order of the
  calls.
\<close>

record run_state =
  progress :: "AnalysisStep list"
  logs :: "LogEntry list"
  requests :: "(LlmClient \<times> GenerateContentParams) list"

definition createLog :: "AnalysisStep \<Rightarrow> LogType \<Rightarrow> string \<Rightarrow> Usage option \<Rightarrow> LogEntry" where
  "createLog s t c tk = \<lparr>step = s, entry_type = t, content = c, tokens = tk\<rparr>"

definition onLog :: "run_state \<Rightarrow> LogEntry \<Rightarrow> run_state" where
  "onLog st entry = st\<lparr>logs := logs st @ [entry]\<rparr>"

definition onProgress :: "run_state \<Rightarrow> AnalysisStep \<Rightarrow> run_state" where
  "onProgress st s = st\<lparr>progress := progress st @ [s]\<rparr>"

definition sendRequest :: "run_state \<Rightarrow> LlmClient \<Rightarrow> GenerateContentParams \<Rightarrow> run_state" where
  "sendRequest st client params = st\<lparr>requests := requests st @ [(client, params)]\<rparr>"

definition usingProvider :: "ModelSelection \<Rightarrow> string" where
  "usingProvider selection =
     ''Using Provider: '' @ providerName (provider selection) @ '', Model: '' @ model selection
       @ [CHR 0x0A]"

section \<open>Stage runners (\<open>migrationService.ts\<close>)\<close>

definition analystSchema :: ResponseSchema where
  "analystSchema =
     ResponseSchema OBJECT None
       (Some [(''summary'', ResponseSchema STRING None None None None None),
              (''variables'', ResponseSchema ARRAY None None
                 (Some (ResponseSchema STRING None None None None None)) None None),
              (''security_concerns'', ResponseSchema ARRAY None None
                 (Some (ResponseSchema STRING None None None None None)) None None),
              (''migration_strategy'', ResponseSchema STRING None None None None None),
              (''required_files'', ResponseSchema ARRAY
                 (Some ''List of filenames found in local imports/includes'') None
                 (Some (ResponseSchema STRING None None None None None)) None None)])
       None None
       (Some [''summary'', ''variables'', ''security_concerns'', ''migration_strategy'',
              ''required_files''])"

definition auditorSchema :: ResponseSchema where
  "auditorSchema =
     ResponseSchema OBJECT None
       (Some [(''comments'', ResponseSchema STRING None None None None None),
              (''security_issues'', ResponseSchema ARRAY None None
                 (Some (ResponseSchema OBJECT None
                    (Some [(''severity'', ResponseSchema STRING None None None
                              (Some [''Critical'', ''High'', ''Medium'', ''Low'']) None),
                           (''title'', ResponseSchema STRING None None None None None),
                           (''description'', ResponseSchema STRING None None None None None),
                           (''location'', ResponseSchema STRING None None None None None)])
                    None None
                    (Some [''severity'', ''title'', ''description'', ''location''])))
                 None None)])
       None None
       (Some [''comments'', ''security_issues''])"

definition missingKeySettings :: "LlmProvider \<Rightarrow> js_error" where
  "missingKeySettings p =
     Error (''Missing API Key for '' @ providerName p
            @ ''. Please click '' @ [CHR 0x27] @ ''Settings'' @ [CHR 0x27]
            @ '' (Zahnrad) and enter your Key.'')"

definition missingKeyCheck :: "LlmProvider \<Rightarrow> js_error" where
  "missingKeyCheck p = Error (''Missing API Key for '' @ providerName p @ ''. Check Settings.'')"

subsection \<open>Step 1: Analyst\<close>

definition runAnalyst :: "platform \<Rightarrow> ModelSelection \<Rightarrow> ApiKeys \<Rightarrow> string \<Rightarrow> run_state
    \<Rightarrow> run_state \<times> (js_error + json)" where
  "runAnalyst env selection keys mainCode st =
     (let prompt = PROMPTS_ANALYST env mainCode;
          st1 = onLog st (createLog ANALYST log_prompt (usingProvider selection @ prompt) None);
          apiKey = resolveApiKey env (provider selection) (Some keys)
      in if \<not> truthyStr apiKey then (st1, Inl (missingKeySettings (provider selection)))
         else (case createLlmClient env (provider selection) apiKey of
                 Inl e \<Rightarrow> (st1, Inl e)
               | Inr client \<Rightarrow>
                   (let params = \<lparr>params_model = model selection,
                                  params_systemInstruction = None,
                                  params_prompt = prompt,
                                  params_responseSchema = Some analystSchema,
                                  params_responseMimeType = Some ''application/json''\<rparr>;
                        st2 = sendRequest st1 client params
                    in (case generateContent env client params of
                          Inl e \<Rightarrow> (st2, Inl e)
                        | Inr response \<Rightarrow>
                            (let rawText = cleanLlmOutput
                                   (if response_text response \<noteq> [] then response_text response
                                    else ''{}'');
                                 st3 = onLog st2 (createLog ANALYST log_response rawText
                                                    (response_usage response))
                             in (case JSON_parse env rawText of
                                   Inr plan \<Rightarrow> (st3, Inr plan)
                                 | Inl msg \<Rightarrow>
                                     (onLog st3 (createLog ANALYST log_error
                                                   (''JSON Parse Error: '' @ msg) None),
                                      Inl (Error ''Analyst failed to produce valid JSON.''))))))))"

subsection \<open>Step 2: Architect\<close>

definition contextStr :: "FileMap \<Rightarrow> string" where
  "contextStr allContext =
     join [CHR 0x0A]
       (map (\<lambda>(name, content).
               ''--- FILE: '' @ name @ '' ---'' @ [CHR 0x0A] @ content @ [CHR 0x0A])
            (entries allContext))"

definition runArchitect :: "platform \<Rightarrow> ModelSelection \<Rightarrow> ApiKeys \<Rightarrow> json \<Rightarrow> FileMap \<Rightarrow> run_state
    \<Rightarrow> run_state \<times> (js_error + string)" where
  "runArchitect env selection keys plan allContext st =
     (let prompt = PROMPTS_ARCHITECT env plan (contextStr allContext);
          st1 = onLog st (createLog ARCHITECT log_prompt (usingProvider selection @ prompt) None);
          apiKey = resolveApiKey env (provider selection) (Some keys)
      in if \<not> truthyStr apiKey then (st1, Inl (missingKeyCheck (provider selection)))
         else (case createLlmClient env (provider selection) apiKey of
                 Inl e \<Rightarrow> (st1, Inl e)
               | Inr client \<Rightarrow>
                   (let params = \<lparr>params_model = model selection,
                                  params_systemInstruction = None,
                                  params_prompt = prompt,
                                  params_responseSchema = None,
                                  params_responseMimeType = None\<rparr>;
                        st2 = sendRequest st1 client params
                    in (case generateContent env client params of
                          Inl e \<Rightarrow> (st2, Inl e)
                        | Inr response \<Rightarrow>
                            (let rawText = cleanLlmOutput
                                   (if response_text response \<noteq> [] then response_text response
                                    else ''Architect failed.'');
                                 st3 = onLog st2 (createLog ARCHITECT log_response rawText
                                                    (response_usage response))
                             in (st3, Inr rawText))))))"

subsection \<open>Step 3: Coder\<close>

text \<open>
  Strategy 1 walks the parsed \<open>files\<close> array. Reading \<open>f.filename\<close> of a \<open>null\<close> entry
  raises inside \<open>forEach\<close>; the entries stored before it stay in the map.
\<close>

fun collectFiles :: "platform \<Rightarrow> json list \<Rightarrow> GeneratedFiles \<Rightarrow> GeneratedFiles \<times> js_error option" where
  "collectFiles env [] fileMap = (fileMap, None)"
| "collectFiles env (f # fs) fileMap =
     (case getProp env f ''filename'' of
        Inl e \<Rightarrow> (fileMap, Some e)
      | Inr None \<Rightarrow> collectFiles env fs fileMap
      | Inr (Some filename) \<Rightarrow>
          (if \<not> truthy filename then collectFiles env fs fileMap
           else (case getProp env f ''content'' of
                   Inl e \<Rightarrow> (fileMap, Some e)
                 | Inr None \<Rightarrow> collectFiles env fs fileMap
                 | Inr (Some contents) \<Rightarrow>
                     (if truthy contents
                      then collectFiles env fs (setProperty fileMap (stringOf env filename) contents)
                      else collectFiles env fs fileMap))))"

definition parseFailed :: "js_error \<Rightarrow> LogEntry" where
  "parseFailed e =
     createLog CODER log_info
       (''Coder JSON Parse Failed: '' @ errorToString e @ ''. Attempting Regex Fallback.'') None"

text \<open>The \<open>try\<close> block of strategy 1: the state with the entry logged by \<open>catch\<close>, the map
  filled so far, and \<open>jsonSuccess\<close>.\<close>

definition strictExtraction :: "platform \<Rightarrow> string \<Rightarrow> run_state \<Rightarrow> run_state \<times> GeneratedFiles \<times> bool" where
  "strictExtraction env text st =
     (let jsonRaw = cleanLlmOutput text
      in (case JSON_parse env jsonRaw of
            Inl msg \<Rightarrow> (onLog st (parseFailed (SyntaxError msg)), [], False)
          | Inr parsed \<Rightarrow>
              (case getProp env parsed ''files'' of
                 Inl e \<Rightarrow> (onLog st (parseFailed e), [], False)
               | Inr (Some (JArray fs)) \<Rightarrow>
                   (case collectFiles env fs [] of
                      (fileMap, None) \<Rightarrow> (st, fileMap, True)
                    | (fileMap, Some e) \<Rightarrow> (onLog st (parseFailed e), fileMap, False))
               | Inr _ \<Rightarrow> (st, [], False))))"

text \<open>
  Strategy 2, the regular expression
  \<open>###\s+([a-zA-Z0-9_\-\.\/]+)\s+`{3}(?:python|bash|json)?\s*([\s\S]*?)`{3}\<close> with flag
  \<open>g\<close>. The character classes are disjoint and contain neither \<open>#\<close> nor the backtick, so
  each greedy run takes all it can and the lazy body ends at the first closing fence.
  \<open>matchFileBlock\<close> is a match at the start of its argument: the two groups and the text
  behind the match.
\<close>

definition isNameChar :: "char \<Rightarrow> bool" where
  "isNameChar c =
     (c \<in> set ''abcdefghijklmnopqrstuvwxyzABCDEFGHIJKLMNOPQRSTUVWXYZ0123456789_-./'')"

definition matchFileBlock :: "string \<Rightarrow> ((string \<times> string) \<times> string) option" where
  "matchFileBlock s =
     (if \<not> prefix ''###'' s then None
      else (let s1 = drop 3 s;
                s2 = dropWhile isWhiteSpace s1;
                name = takeWhile isNameChar s2;
                s3 = dropWhile isNameChar s2;
                s4 = dropWhile isWhiteSpace s3
            in if takeWhile isWhiteSpace s1 = [] \<or> name = [] \<or> takeWhile isWhiteSpace s3 = []
                  \<or> \<not> prefix ''```'' s4
               then None
               else (let s5 = dropLanguageTag [''python'', ''bash'', ''json''] (drop 3 s4);
                         s6 = dropWhile isWhiteSpace s5
                     in (case splitAtFirst ''```'' s6 of
                           None \<Rightarrow> None
                         | Some (body, rest) \<Rightarrow> Some ((name, body), rest)))))"

lemma dropLanguageTag_length: "length (dropLanguageTag tags s) \<le> length s"
  by (simp add: dropLanguageTag_def split: list.splits)

lemma matchFileBlock_length:
  assumes "matchFileBlock s = Some (groups, rest)"
  shows "length rest < length s"
proof -
  from assms have p: "prefix ''###'' s"
    by (auto simp: matchFileBlock_def split: if_splits)
  define s4 where "s4 = dropWhile isWhiteSpace (dropWhile isNameChar (dropWhile isWhiteSpace (drop 3 s)))"
  define s6 where "s6 = dropWhile isWhiteSpace (dropLanguageTag [''python'', ''bash'', ''json''] (drop 3 s4))"
  from assms obtain body where "splitAtFirst ''```'' s6 = Some (body, rest)"
    by (auto simp: matchFileBlock_def Let_def s4_def s6_def split: if_splits option.splits)
  then have "length rest \<le> length s6"
    by (rule splitAtFirst_length)
  also have "length s6 \<le> length (drop 3 s4)"
    unfolding s6_def
    by (rule order_trans [OF length_dropWhile_le dropLanguageTag_length])
  also have "\<dots> \<le> length s4" by simp
  also have "length s4 \<le> length (drop 3 s)"
    unfolding s4_def
    by (intro order_trans [OF length_dropWhile_le] order_refl)
  also from p have "length (drop 3 s) < length s"
    by (auto simp: prefix_def)
  finally show ?thesis .
qed

function execAll :: "string \<Rightarrow> (string \<times> string) list" where
  "execAll [] = []"
| "execAll (c # cs) =
     (case matchFileBlock (c # cs) of
        Some (groups, rest) \<Rightarrow> groups # execAll rest
      | None \<Rightarrow> execAll cs)"
  by pat_completeness auto
termination
  by (relation "measure length") (auto dest!: matchFileBlock_length)

definition regexFallback :: "string \<Rightarrow> GeneratedFiles \<Rightarrow> GeneratedFiles" where
  "regexFallback text fileMap =
     foldl (\<lambda>m (filename, content). setProperty m (trim filename) (JString (trim content)))
       fileMap (execAll text)"

definition needsFallback :: "bool \<Rightarrow> GeneratedFiles \<Rightarrow> bool" where
  "needsFallback jsonSuccess fileMap = (\<not> jsonSuccess \<or> length fileMap = 0)"

definition extractionFailed :: js_error where
  "extractionFailed =
     Error ''Coder failed to generate files. Neither JSON parser nor Regex could find valid code blocks.''"

text \<open>The second half of \<open>runCoder\<close>, from \<open>const fileMap: FileMap = {}\<close> to its end: both
  strategies and the final check.\<close>

definition extractFiles :: "platform \<Rightarrow> string \<Rightarrow> run_state
    \<Rightarrow> run_state \<times> (js_error + GeneratedFiles)" where
  "extractFiles env text st =
     (case strictExtraction env text st of
        (st1, fileMap1, jsonSuccess) \<Rightarrow>
          (let fileMap2 = (if needsFallback jsonSuccess fileMap1
                           then regexFallback text fileMap1
                           else fileMap1)
           in if length fileMap2 = 0 then (st1, Inl extractionFailed)
              else (st1, Inr fileMap2)))"

definition runCoder :: "platform \<Rightarrow> ModelSelection \<Rightarrow> ApiKeys \<Rightarrow> json \<Rightarrow> string \<Rightarrow> FileMap \<Rightarrow> run_state
    \<Rightarrow> run_state \<times> (js_error + GeneratedFiles)" where
  "runCoder env selection keys plan architecture allContext st =
     (let prompt = PROMPTS_CODER env architecture (contextStr allContext);
          st1 = onLog st (createLog CODER log_prompt (usingProvider selection @ prompt) None);
          apiKey = resolveApiKey env (provider selection) (Some keys)
      in if \<not> truthyStr apiKey then (st1, Inl (missingKeyCheck (provider selection)))
         else (case createLlmClient env (provider selection) apiKey of
                 Inl e \<Rightarrow> (st1, Inl e)
               | Inr client \<Rightarrow>
                   (let params = \<lparr>params_model = model selection,
                                  params_systemInstruction = None,
                                  params_prompt = prompt,
                                  params_responseSchema = None,
                                  params_responseMimeType = Some ''application/json''\<rparr>;
                        st2 = sendRequest st1 client params
                    in (case generateContent env client params of
                          Inl e \<Rightarrow> (st2, Inl e)
                        | Inr response \<Rightarrow>
                            (let text = response_text response;
                                 st3 = onLog st2 (createLog CODER log_response text
                                                    (response_usage response))
                             in extractFiles env text st3)))))"

subsection \<open>Step 4: Auditor\<close>

definition runAuditor :: "platform \<Rightarrow> ModelSelection \<Rightarrow> ApiKeys \<Rightarrow> FileMap \<Rightarrow> GeneratedFiles \<Rightarrow> run_state
    \<Rightarrow> run_state \<times> (js_error + json)" where
  "runAuditor env selection keys originalContext generatedFiles st =
     (let originalStr = join [CHR 0x0A]
            (map (\<lambda>(n, c). n @ '': '' @ take 500 c @ ''...'') (entries originalContext));
          newStr = join [CHR 0x0A]
            (map (\<lambda>(n, c). ''--- '' @ n @ '' ---'' @ [CHR 0x0A] @ stringOf env c)
                 (entries generatedFiles));
          prompt = PROMPTS_AUDITOR env originalStr newStr;
          st1 = onLog st (createLog AUDITOR log_prompt (usingProvider selection @ prompt) None);
          apiKey = resolveApiKey env (provider selection) (Some keys)
      in if \<not> truthyStr apiKey then (st1, Inl (missingKeyCheck (provider selection)))
         else (case createLlmClient env (provider selection) apiKey of
                 Inl e \<Rightarrow> (st1, Inl e)
               | Inr client \<Rightarrow>
                   (let params = \<lparr>params_model = model selection,
                                  params_systemInstruction = None,
                                  params_prompt = prompt,
                                  params_responseSchema = Some auditorSchema,
                                  params_responseMimeType = Some ''application/json''\<rparr>;
                        st2 = sendRequest st1 client params
                    in (case generateContent env client params of
                          Inl e \<Rightarrow> (st2, Inl e)
                        | Inr response \<Rightarrow>
                            (let rawText = cleanLlmOutput
                                   (if response_text response \<noteq> [] then response_text response
                                    else ''{}'');
                                 st3 = onLog st2 (createLog AUDITOR log_response rawText
                                                    (response_usage response))
                             in (case JSON_parse env rawText of
                                   Inr auditResult \<Rightarrow> (st3, Inr auditResult)
                                 | Inl msg \<Rightarrow> (st3, Inl (SyntaxError msg))))))))"

section \<open>Pipeline functions\<close>

text \<open>
  The two entry points of the orchestrator. A \<open>catch\<close> block writes to the console
  (left out here), reports \<open>ERROR\<close> and throws the error it caught.
\<close>

text \<open>\<open>plan.required_files && plan.required_files.length > 0\<close>: the left operand when it is
  falsy, the comparison otherwise.\<close>

definition needsFilesOf :: "platform \<Rightarrow> json \<Rightarrow> js_error + json option" where
  "needsFilesOf env plan =
     (case getProp env plan ''required_files'' of
        Inl e \<Rightarrow> Inl e
      | Inr None \<Rightarrow> Inr None
      | Inr (Some required_files) \<Rightarrow>
          (if \<not> truthy required_files then Inr (Some required_files)
           else Inr (Some (JBool (greaterThanZero env (lengthOf required_files))))))"

definition startAnalysis :: "platform \<Rightarrow> string \<Rightarrow> ModelConfig \<Rightarrow> ApiKeys \<Rightarrow> run_state
    \<Rightarrow> run_state \<times> (js_error + json \<times> json option)" where
  "startAnalysis env mainCode modelConfig apiKeys st =
     (case runAnalyst env (modelConfig ANALYST) apiKeys mainCode (onProgress st ANALYST) of
        (st1, Inl e) \<Rightarrow> (onProgress st1 ERROR, Inl e)
      | (st1, Inr plan) \<Rightarrow>
          (case needsFilesOf env plan of
             Inl e \<Rightarrow> (onProgress st1 ERROR, Inl e)
           | Inr needsFiles \<Rightarrow> (st1, Inr (plan, needsFiles))))"

record RefactorResult =
  plan :: json
  generatedFiles :: GeneratedFiles
  securityReport :: json
  auditorComments :: json
  modelConfig :: ModelConfig

text \<open>\<open>v || d\<close> on a property that was read.\<close>

definition orDefault :: "json option \<Rightarrow> json \<Rightarrow> json" where
  "orDefault v d = (case v of None \<Rightarrow> d | Some j \<Rightarrow> if truthy j then j else d)"

definition completeMigration :: "platform \<Rightarrow> json \<Rightarrow> FileMap \<Rightarrow> ModelConfig \<Rightarrow> ApiKeys \<Rightarrow> run_state
    \<Rightarrow> run_state \<times> (js_error + RefactorResult)" where
  "completeMigration env p allContext cfg apiKeys st =
     (case runArchitect env (cfg ARCHITECT) apiKeys p allContext (onProgress st ARCHITECT) of
        (st1, Inl e) \<Rightarrow> (onProgress st1 ERROR, Inl e)
      | (st1, Inr arch) \<Rightarrow>
          (case runCoder env (cfg CODER) apiKeys p arch allContext (onProgress st1 CODER) of
             (st2, Inl e) \<Rightarrow> (onProgress st2 ERROR, Inl e)
           | (st2, Inr files) \<Rightarrow>
               (case runAuditor env (cfg AUDITOR) apiKeys allContext files
                       (onProgress st2 AUDITOR) of
                  (st3, Inl e) \<Rightarrow> (onProgress st3 ERROR, Inl e)
                | (st3, Inr auditResult) \<Rightarrow>
                    (let st4 = onProgress st3 COMPLETE
                     in (case getProp env auditResult ''security_issues'' of
                           Inl e \<Rightarrow> (onProgress st4 ERROR, Inl e)
                         | Inr issues \<Rightarrow>
                             (case getProp env auditResult ''comments'' of
                                Inl e \<Rightarrow> (onProgress st4 ERROR, Inl e)
                              | Inr comments \<Rightarrow>
                                  (st4, Inr \<lparr>plan = p,
                                             generatedFiles = files,
                                             securityReport = orDefault issues (JArray []),
                                             auditorComments =
                                               orDefault comments (JString ''Audit completed.''),
                                             modelConfig = cfg\<rparr>)))))))"

section \<open>The application (\<open>App.tsx\<close>)\<close>

datatype Tab = Tab_INPUT | Tab_PLAN | Tab_CODE | Tab_SECURITY | Tab_LOGS

text \<open>
  The state of the component. \<open>setAnalysisStep\<close> is the \<open>onProgress\<close> callback and \<open>addLog\<close>
  the \<open>onLog\<close> callback, so the steps shown and the log live in \<open>run\<close>; the step shown is
  the last of \<open>progress\<close>.
\<close>

record app_state =
  inputCode :: string
  activeTab :: Tab
  app_result :: "RefactorResult option"
  app_error :: "string option"
  app_modelConfig :: "ModelConfig option"
  app_apiKeys :: ApiKeys
  showSettingsModal :: bool
  partialPlan :: "json option"
  showDependencyModal :: bool
  run :: run_state

definition messageOr :: "js_error \<Rightarrow> string \<Rightarrow> string" where
  "messageOr err d = (if message err \<noteq> [] then message err else d)"

definition handleStartAnalysis :: "platform \<Rightarrow> app_state \<Rightarrow> app_state" where
  "handleStartAnalysis env app =
     (if trim (inputCode app) = [] then app
      else (case app_modelConfig app of
              None \<Rightarrow> app\<lparr>showSettingsModal := True\<rparr>
            | Some cfg \<Rightarrow>
                (let app1 = app\<lparr>run := (onProgress (run app) ANALYST)\<lparr>logs := []\<rparr>,
                                app_error := None, app_result := None, partialPlan := None\<rparr>
                 in (case startAnalysis env (inputCode app) cfg (app_apiKeys app) (run app1) of
                       (st, Inl err) \<Rightarrow>
                         app1\<lparr>run := onProgress st ERROR,
                              app_error := Some (messageOr err
                                ''Analysis failed. Check LLM Logs for details.'')\<rparr>
                     | (st, Inr (p, needsFiles)) \<Rightarrow>
                         (if truthyVal needsFiles
                          then app1\<lparr>run := onProgress st WAITING_FOR_USER,
                                    partialPlan := Some p, showDependencyModal := True\<rparr>
                          else (case completeMigration env p [(''main.legacy'', inputCode app)]
                                       cfg (app_apiKeys app) st of
                                  (st', Inl err) \<Rightarrow>
                                    app1\<lparr>run := onProgress st' ERROR,
                                         app_error := Some (messageOr err
                                           ''Analysis failed. Check LLM Logs for details.'')\<rparr>
                                | (st', Inr finalResult) \<Rightarrow>
                                    app1\<lparr>run := st', app_result := Some finalResult,
                                         activeTab := Tab_CODE\<rparr>))))))"

text \<open>\<open>{ 'main.legacy': inputCode, ...additionalFiles }\<close>\<close>

definition fullContext :: "string \<Rightarrow> FileMap \<Rightarrow> FileMap" where
  "fullContext code additionalFiles =
     foldl (\<lambda>m (k, v). defineProperty m k v) [(''main.legacy'', code)] (entries additionalFiles)"

definition handleDependencySubmit :: "platform \<Rightarrow> FileMap \<Rightarrow> app_state \<Rightarrow> app_state" where
  "handleDependencySubmit env additionalFiles app =
     (let app1 = app\<lparr>showDependencyModal := False\<rparr>
      in (case (partialPlan app, app_modelConfig app) of
            (Some p, Some cfg) \<Rightarrow>
              (if \<not> truthy p then app1
               else (case completeMigration env p (fullContext (inputCode app) additionalFiles)
                            cfg (app_apiKeys app) (run app) of
                       (st, Inl err) \<Rightarrow>
                         app1\<lparr>run := onProgress st ERROR,
                              app_error := Some (messageOr err
                                ''Error completing migration with dependencies.'')\<rparr>
                     | (st, Inr finalResult) \<Rightarrow>
                         app1\<lparr>run := st, app_result := Some finalResult,
                              activeTab := Tab_CODE\<rparr>))
          | _ \<Rightarrow> app1))"

section \<open>Notions used in the properties\<close>

text \<open>The credential that a call passes for a provider.\<close>

definition sessionKey :: "LlmProvider \<Rightarrow> ApiKeys \<Rightarrow> string" where
  "sessionKey p ks =
     (case p of provider_google \<Rightarrow> google ks | provider_openrouter \<Rightarrow> openrouter ks)"

text \<open>All errors of the service are plain \<open>Error\<close> objects; the one for a missing credential
  is recognised by the start of its message.\<close>

definition isConfigurationError :: "js_error \<Rightarrow> bool" where
  "isConfigurationError e = prefix ''Missing API Key for '' (message e)"

definition emptyRun :: run_state where
  "emptyRun = \<lparr>progress = [], logs = [], requests = []\<rparr>"

text \<open>
  A platform for worked examples: the parser knows the texts of a table, the browser has
  nothing stored, and the backend is given.
\<close>

definition samplePlatform :: "(string \<times> json) list
    \<Rightarrow> (LlmProvider \<Rightarrow> string \<Rightarrow> GenerateContentParams \<Rightarrow> string + GenerateContentResult)
    \<Rightarrow> platform" where
  "samplePlatform parses backend =
     \<lparr>JSON_parse = (\<lambda>s. case map_of parses s of
                              Some j \<Rightarrow> Inr j
                            | None \<Rightarrow> Inl ''Unexpected token''),
      ToString = (\<lambda>v. ''[object Object]''),
      nullPropertyMessage = (\<lambda>n. ''Cannot read properties of null''),
      coercedGreaterThanZero = (\<lambda>v. False),
      window_defined = True,
      localStorage = Map.empty,
      process_env = Map.empty,
      transport = backend,
      PROMPTS_ANALYST = (\<lambda>code. ''Analyse: '' @ code),
      PROMPTS_ARCHITECT = (\<lambda>p ctx. ''Design: '' @ ctx),
      PROMPTS_CODER = (\<lambda>arch ctx. ''Implement: '' @ arch @ ctx),
      PROMPTS_AUDITOR = (\<lambda>old new. ''Audit: '' @ old @ new)\<rparr>"

text \<open>Backends for worked examples: one that is unreachable, one that answers by model
  name.\<close>

definition offlineBackend :: "LlmProvider \<Rightarrow> string \<Rightarrow> GenerateContentParams \<Rightarrow> string + GenerateContentResult" where
  "offlineBackend p k r = Inl ''Failed to fetch''"

definition backendByModel :: "(string \<times> string) list
    \<Rightarrow> LlmProvider \<Rightarrow> string \<Rightarrow> GenerateContentParams \<Rightarrow> string + GenerateContentResult" where
  "backendByModel answers p k r =
     (case map_of answers (params_model r) of
        Some t \<Rightarrow> Inr \<lparr>response_text = t, response_usage = None\<rparr>
      | None \<Rightarrow> Inl ''model not found'')"

definition sampleConfig :: ModelConfig where
  "sampleConfig s =
     (if s = ANALYST then \<lparr>provider = provider_google, model = ''analyst''\<rparr>
      else if s = ARCHITECT then \<lparr>provider = provider_google, model = ''architect''\<rparr>
      else if s = CODER then \<lparr>provider = provider_google, model = ''coder''\<rparr>
      else \<lparr>provider = provider_google, model = ''auditor''\<rparr>)"

definition sampleKeys :: ApiKeys where
  "sampleKeys = \<lparr>google = ''g-key'', openrouter = []\<rparr>"

text \<open>The error-kind entries of a log.\<close>

definition errorEntries :: "LogEntry list \<Rightarrow> LogEntry list" where
  "errorEntries ls = filter (\<lambda>l. entry_type l = log_error) ls"

text \<open>The request that \<open>runAnalyst\<close> hands to its client.\<close>

definition analystRequest :: "platform \<Rightarrow> ModelSelection \<Rightarrow> string \<Rightarrow> GenerateContentParams" where
  "analystRequest env selection mainCode =
     \<lparr>params_model = model selection,
      params_systemInstruction = None,
      params_prompt = PROMPTS_ANALYST env mainCode,
      params_responseSchema = Some analystSchema,
      params_responseMimeType = Some ''application/json''\<rparr>"

definition silentBackend :: "LlmProvider \<Rightarrow> string \<Rightarrow> GenerateContentParams \<Rightarrow> string + GenerateContentResult" where
  "silentBackend p k r = Inr \<lparr>response_text = [], response_usage = None\<rparr>"

definition analystInvalidJson :: js_error where
  "analystInvalidJson = Error ''Analyst failed to produce valid JSON.''"

text \<open>The application before a run, with a source text entered and a configuration saved.\<close>

definition sampleApp :: "string \<Rightarrow> app_state" where
  "sampleApp code =
     \<lparr>inputCode = code, activeTab = Tab_INPUT, app_result = None, app_error = None,
      app_modelConfig = Some sampleConfig, app_apiKeys = sampleKeys,
      showSettingsModal = False, partialPlan = None, showDependencyModal = False,
      run = emptyRun\<rparr>"

text \<open>Two Analyst answers and what \<open>JSON.parse\<close> makes of them.\<close>

definition onePlanText :: string where
  \<open>onePlanText = ''{"required_files":["a.php"]}''\<close>

definition onePlan :: json where
  "onePlan = JObject [(''required_files'', JArray [JString ''a.php''])]"

definition noFilesPlanText :: string where
  \<open>noFilesPlanText = ''{"required_files":[]}''\<close>

definition noFilesPlan :: json where
  "noFilesPlan = JObject [(''required_files'', JArray [])]"

definition analystAnswers :: "string \<Rightarrow> json \<Rightarrow> platform" where
  "analystAnswers t j = samplePlatform [(t, j)] (backendByModel [(''analyst'', t)])"

text \<open>An Analyst answer that asks for a file named like the primary input.\<close>

definition collidingPlanText :: string where
  \<open>collidingPlanText = ''{"required_files":["main.legacy"]}''\<close>

definition collidingPlan :: json where
  "collidingPlan = JObject [(''required_files'', JArray [JString ''main.legacy''])]"

text \<open>An entry of the \<open>files\<close> array with a truthy \<open>filename\<close> and a truthy \<open>content\<close>, and
  the assignment \<open>fileMap[f.filename] = f.content\<close> for it.\<close>

definition hasTruthy :: "json \<Rightarrow> string \<Rightarrow> bool" where
  "hasTruthy f name = (case f of JObject kvs \<Rightarrow> truthyVal (map_of kvs name) | _ \<Rightarrow> False)"

definition validEntry :: "json \<Rightarrow> bool" where
  "validEntry f = (hasTruthy f ''filename'' \<and> hasTruthy f ''content'')"

definition storeEntry :: "platform \<Rightarrow> GeneratedFiles \<Rightarrow> json \<Rightarrow> GeneratedFiles" where
  "storeEntry env m f =
     (case f of
        JObject kvs \<Rightarrow>
          (case (map_of kvs ''filename'', map_of kvs ''content'') of
             (Some filename, Some contents) \<Rightarrow> setProperty m (stringOf env filename) contents
           | _ \<Rightarrow> m)
      | _ \<Rightarrow> m)"

definition notNull :: "json \<Rightarrow> bool" where
  "notNull f = (f \<noteq> JNull)"

text \<open>The request that \<open>runCoder\<close> hands to its client.\<close>

definition coderRequest :: "platform \<Rightarrow> ModelSelection \<Rightarrow> string \<Rightarrow> FileMap \<Rightarrow> GenerateContentParams" where
  "coderRequest env selection architecture allContext =
     \<lparr>params_model = model selection,
      params_systemInstruction = None,
      params_prompt = PROMPTS_CODER env architecture (contextStr allContext),
      params_responseSchema = None,
      params_responseMimeType = Some ''application/json''\<rparr>"

text \<open>Coder answers and what \<open>JSON.parse\<close> makes of them: three files; three entries of
  which two share a name; three entries of which one is named \<open>__proto__\<close>.\<close>

definition fileEntry :: "string \<Rightarrow> string \<Rightarrow> (string \<times> json) list" where
  "fileEntry n c = [(''filename'', JString n), (''content'', JString c)]"

definition threeFilesText :: string where
  \<open>threeFilesText = ''{"files":[{"filename":"a.py","content":"x"},{"filename":"b.py","content":"y"},{"filename":"c.py","content":"z"}]}''\<close>

definition threeFiles :: json where
  "threeFiles = JObject [(''files'', JArray [JObject (fileEntry ''a.py'' ''x''),
                                            JObject (fileEntry ''b.py'' ''y''),
                                            JObject (fileEntry ''c.py'' ''z'')])]"

definition duplicateFilesText :: string where
  \<open>duplicateFilesText = ''{"files":[{"filename":"a.py","content":"x"},{"filename":"a.py","content":"y"},{"filename":"b.py","content":"z"}]}''\<close>

definition duplicateFiles :: json where
  "duplicateFiles = JObject [(''files'', JArray [JObject (fileEntry ''a.py'' ''x''),
                                                JObject (fileEntry ''a.py'' ''y''),
                                                JObject (fileEntry ''b.py'' ''z'')])]"

definition protoFilesText :: string where
  \<open>protoFilesText = ''{"files":[{"filename":"__proto__","content":"x"},{"filename":"a.py","content":"y"},{"filename":"b.py","content":"z"}]}''\<close>

definition protoFiles :: json where
  "protoFiles = JObject [(''files'', JArray [JObject (fileEntry ''__proto__'' ''x''),
                                            JObject (fileEntry ''a.py'' ''y''),
                                            JObject (fileEntry ''b.py'' ''z'')])]"

text \<open>A schema with a property named \<open>__proto__\<close>.\<close>

definition protoSchema :: ResponseSchema where
  "protoSchema =
     ResponseSchema OBJECT None
       (Some [(''name'', ResponseSchema STRING None None None None None),
              (''__proto__'', ResponseSchema OBJECT None (Some []) None None None)])
       None None None"

text \<open>A \<open>files\<close> array with entries that lack a name or a content.\<close>

definition mixedEntries :: "json list" where
  "mixedEntries =
     [JObject (fileEntry ''a.py'' ''x''),
      JObject (fileEntry ''b.py'' []),
      JObject [(''content'', JString ''y'')],
      JObject [(''filename'', JString ''d.py'')],
      JObject (fileEntry [] ''e''),
      JString ''junk'',
      JObject (fileEntry ''c.py'' ''z'')]"

text \<open>A text holds a think block when an opening marker occurs with a closing marker
  somewhere behind it.\<close>

fun hasThinkBlock :: "string \<Rightarrow> bool" where
  "hasThinkBlock [] = False"
| "hasThinkBlock (c # cs) =
     ((prefix ''<think>'' (c # cs) \<and> occursIn ''</think>'' (drop 7 (c # cs)))
      \<or> hasThinkBlock cs)"

text \<open>A text is trimmed when it neither starts nor ends with white space.\<close>

definition isTrimmed :: "string \<Rightarrow> bool" where
  "isTrimmed s =
     (dropWhile isWhiteSpace s = s \<and> dropWhile isWhiteSpace (rev s) = rev s)"

text \<open>Platforms whose backend answers the Architect only, and the Architect and the Coder
  only.\<close>

definition architectOnly :: platform where
  "architectOnly = samplePlatform [] (backendByModel [(''architect'', ''design'')])"

definition noAuditor :: platform where
  "noAuditor =
     samplePlatform [(threeFilesText, threeFiles)]
       (backendByModel [(''architect'', ''design''), (''coder'', threeFilesText)])"

section \<open>Properties of the schema translation\<close>

lemma toLowerCase_values:
  "toLowerCase ''STRING'' = ''string''"
  "toLowerCase ''NUMBER'' = ''number''"
  "toLowerCase ''INTEGER'' = ''integer''"
  "toLowerCase ''BOOLEAN'' = ''boolean''"
  "toLowerCase ''ARRAY'' = ''array''"
  "toLowerCase ''OBJECT'' = ''object''"
  by code_simp+

lemma toLowerCase_type_name:
  "toLowerCase (SchemaType_value t) \<in> set lowercaseTypeNames"
  by (cases t) (simp_all add: toLowerCase_values lowercaseTypeNames_def)

lemma toLowerCase_object_iff:
  "toLowerCase (SchemaType_value t) = ''object'' \<longleftrightarrow> t = OBJECT"
  by (cases t) (simp_all add: toLowerCase_values)

lemma mapToJsonSchema_node:
  "js_type (mapToJsonSchema n) = toLowerCase (SchemaType_value (type n))"
  "js_additionalProperties (mapToJsonSchema n)
     = (if properties n = None then None else Some False)"
  by (cases n; simp split: option.splits)+

lemma set_defineProperty: "set (defineProperty m k v) \<subseteq> insert (k, v) (set m)"
  by (induction m) (auto split: if_splits)

lemma set_setProperty: "set (setProperty m k v) \<subseteq> insert (k, v) (set m)"
  using set_defineProperty [of m k v] by (auto simp: setProperty_def)

lemma foldl_setProperty_subset:
  "(k, j) \<in> set (foldl (\<lambda>out (key, child). setProperty out key (f child)) acc xs) \<Longrightarrow>
   (k, j) \<in> set acc \<or> (\<exists>child. (k, child) \<in> set xs \<and> j = f child)"
proof (induction xs arbitrary: acc)
  case Nil
  then show ?case by simp
next
  case (Cons x xs)
  obtain key child where x: "x = (key, child)" by (cases x)
  from Cons.prems x
  have "(k, j) \<in> set (foldl (\<lambda>out (key, child). setProperty out key (f child))
                       (setProperty acc key (f child)) xs)"
    by simp
  from Cons.IH [OF this] set_setProperty [of acc key "f child"] x show ?case
    by auto
qed

lemma defineProperty_fresh: "k \<notin> fst ` set m \<Longrightarrow> defineProperty m k v = m @ [(k, v)]"
  by (induction m) auto

lemma foldl_setProperty_fresh:
  assumes "distinct (map fst acc @ map fst xs)" and "''__proto__'' \<notin> fst ` set xs"
  shows "foldl (\<lambda>out (key, child). setProperty out key (f child)) acc xs
           = acc @ map (\<lambda>(key, child). (key, f child)) xs"
  using assms
proof (induction xs arbitrary: acc)
  case Nil
  then show ?case by simp
next
  case (Cons x xs)
  obtain key child where x: "x = (key, child)" by (cases x)
  from Cons.prems x have fresh: "key \<notin> fst ` set acc" and ordinary: "key \<noteq> ''__proto__''"
    by auto
  then have step: "setProperty acc key (f child) = acc @ [(key, f child)]"
    by (simp add: setProperty_def defineProperty_fresh)
  have "distinct (map fst (acc @ [(key, f child)]) @ map fst xs)"
    using Cons.prems(1) x by auto
  moreover have "''__proto__'' \<notin> fst ` set xs"
    using Cons.prems(2) by auto
  ultimately show ?case
    using Cons.IH [of "acc @ [(key, f child)]"] x step by simp
qed

lemma distinct_keys_entries:
  assumes "distinct (map fst m)"
  shows "distinct (map fst (entries m))"
proof -
  from assms have d: "distinct m" and i: "inj_on fst (set m)"
    by (simp_all add: distinct_map)
  have "distinct (entries m)"
    using d by (auto simp: entries_def)
  moreover have "inj_on fst (set (entries m))"
    using i by (simp add: set_entries)
  ultimately show ?thesis by (simp add: distinct_map)
qed

text \<open>Every node of the translation translates a node of the schema.\<close>

lemma jsonSchemaNodes_subset:
  "set (jsonSchemaNodes (mapToJsonSchema s)) \<subseteq> mapToJsonSchema ` set (nodes s)"
proof (induction s rule: mapToJsonSchema.induct)
  case (1 t d ps it en rq)
  let ?s = "ResponseSchema t d ps it en rq"
  have root: "mapToJsonSchema ?s \<in> mapToJsonSchema ` set (nodes ?s)"
    by simp
  have element: "it = Some i \<Longrightarrow>
      set (jsonSchemaNodes (mapToJsonSchema i)) \<subseteq> mapToJsonSchema ` set (nodes ?s)" for i
    using 1(2) [of i] by auto
  have children: "ps = Some kvs \<Longrightarrow>
      (k, j) \<in> set (foldl (\<lambda>out (key, child). setProperty out key (mapToJsonSchema child))
                        [] (entries kvs)) \<Longrightarrow>
      set (jsonSchemaNodes j) \<subseteq> mapToJsonSchema ` set (nodes ?s)" for kvs k j
  proof -
    assume ps: "ps = Some kvs"
      and "(k, j) \<in> set (foldl (\<lambda>out (key, child). setProperty out key (mapToJsonSchema child))
                        [] (entries kvs))"
    then obtain child where c: "(k, child) \<in> set (entries kvs)" "j = mapToJsonSchema child"
      using foldl_setProperty_subset [of k j mapToJsonSchema "[]" "entries kvs"] by auto
    from 1(1) [OF ps c(1) refl]
    have "set (jsonSchemaNodes j) \<subseteq> mapToJsonSchema ` set (nodes child)"
      by (simp add: c(2))
    moreover from c(1) have "(k, child) \<in> set kvs" by (simp add: set_entries)
    then have "set (nodes child) \<subseteq> set (nodes ?s)"
      using ps by auto
    ultimately show ?thesis by blast
  qed
  show ?case
  proof
    fix x
    assume "x \<in> set (jsonSchemaNodes (mapToJsonSchema ?s))"
    then consider "x = mapToJsonSchema ?s"
      | kvs k j where "ps = Some kvs"
          "(k, j) \<in> set (foldl (\<lambda>out (key, child). setProperty out key (mapToJsonSchema child))
                            [] (entries kvs))"
          "x \<in> set (jsonSchemaNodes j)"
      | i where "it = Some i" "x \<in> set (jsonSchemaNodes (mapToJsonSchema i))"
      by (cases ps; cases it) auto
    then show "x \<in> mapToJsonSchema ` set (nodes ?s)"
    proof cases
      case 1
      with root show ?thesis by blast
    next
      case 2
      from children [OF 2(1) 2(2)] 2(3) show ?thesis by blast
    next
      case 3
      from element [OF 3(1)] 3(2) show ?thesis by blast
    qed
  qed
qed


text \<open>With distinct property names, none of them \<open>__proto__\<close>, every node is translated
  into the result.\<close>

lemma nodes_self: "s \<in> set (nodes s)"
  by (cases s) simp

lemma jsonSchemaNodes_self: "j \<in> set (jsonSchemaNodes j)"
  by (cases j) simp

lemma ordinaryNames_child:
  assumes "ordinaryNames s" and "set (nodes c) \<subseteq> set (nodes s)"
  shows "ordinaryNames c"
  using assms by (auto simp: ordinaryNames_def list_all_iff)

lemma jsonSchemaNodes_superset:
  "ordinaryNames s \<Longrightarrow> n \<in> set (nodes s) \<Longrightarrow>
   mapToJsonSchema n \<in> set (jsonSchemaNodes (mapToJsonSchema s))"
proof (induction s rule: mapToJsonSchema.induct)
  case (1 t d ps it en rq)
  let ?s = "ResponseSchema t d ps it en rq"
  from 1(4) consider "n = ?s"
    | kvs k child where "ps = Some kvs" "(k, child) \<in> set kvs" "n \<in> set (nodes child)"
    | i where "it = Some i" "n \<in> set (nodes i)"
    by (cases ps; cases it) auto
  then show ?case
  proof cases
    case 1
    then show ?thesis using jsonSchemaNodes_self [of "mapToJsonSchema ?s"] by simp
  next
    case 2
    have "set (nodes child) \<subseteq> set (nodes ?s)"
      using 2(1,2) by auto
    with 1(3) have ord: "ordinaryNames child"
      by (rule ordinaryNames_child)
    from 2(2) have e: "(k, child) \<in> set (entries kvs)"
      by (simp add: set_entries)
    from 1(1) [OF 2(1) e refl ord 2(3)]
    have inner: "mapToJsonSchema n \<in> set (jsonSchemaNodes (mapToJsonSchema child))" .
    from 1(3) 2(1) have names: "distinct (map fst kvs)" "''__proto__'' \<notin> fst ` set kvs"
      using nodes_self [of ?s] by (auto simp: ordinaryNames_def list_all_iff)
    have "foldl (\<lambda>out (key, child). setProperty out key (mapToJsonSchema child)) [] (entries kvs)
            = [] @ map (\<lambda>(key, child). (key, mapToJsonSchema child)) (entries kvs)"
      using names distinct_keys_entries [of kvs]
      by (intro foldl_setProperty_fresh) (simp_all add: set_entries)
    with e have "(k, mapToJsonSchema child)
        \<in> set (foldl (\<lambda>out (key, child). setProperty out key (mapToJsonSchema child))
                    [] (entries kvs))"
      by force
    with inner 2(1) show ?thesis
      by (cases it) auto
  next
    case 3
    have "set (nodes i) \<subseteq> set (nodes ?s)"
      using 3(1) by auto
    with 1(3) have "ordinaryNames i"
      by (rule ordinaryNames_child)
    from 1(2) [OF 3(1) this 3(2)] 3(1) show ?thesis
      by (cases ps) auto
  qed
qed

text \<open>
  Claim C6. For a well-formed vendor-neutral schema, the translation of every node carries
  the lowercase name of the node's type, one of the six lowercase type names, and the
  translation of every \<open>OBJECT\<close> node has \<open>additionalProperties\<close> set to \<open>false\<close>. Every node
  of the result is the translation of a node of the schema, so every node of the result
  carries a lowercase type name and every node of type \<open>object\<close> is closed. Where the
  property names of every node are distinct and none is \<open>__proto__\<close>, the nodes of the result
  are exactly the translations of the nodes of the schema.
\<close>

theorem mapToJsonSchema_closes_objects:
  assumes "wellFormed s"
  shows "(\<forall>n \<in> set (nodes s).
           js_type (mapToJsonSchema n) = toLowerCase (SchemaType_value (type n))
           \<and> js_type (mapToJsonSchema n) \<in> set lowercaseTypeNames
           \<and> (type n = OBJECT \<longrightarrow> js_additionalProperties (mapToJsonSchema n) = Some False))
     \<and> set (jsonSchemaNodes (mapToJsonSchema s)) \<subseteq> mapToJsonSchema ` set (nodes s)
     \<and> (ordinaryNames s \<longrightarrow>
           set (jsonSchemaNodes (mapToJsonSchema s)) = mapToJsonSchema ` set (nodes s))
     \<and> (\<forall>j \<in> set (jsonSchemaNodes (mapToJsonSchema s)).
           js_type j \<in> set lowercaseTypeNames
           \<and> (js_type j = ''object'' \<longrightarrow> js_additionalProperties j = Some False))"
proof -
  have wf: "\<And>n. n \<in> set (nodes s) \<Longrightarrow> type n = OBJECT \<Longrightarrow> properties n \<noteq> None"
    using assms by (auto simp: wellFormed_def list_all_iff wellFormedNode_def)
  have each: "\<And>n. n \<in> set (nodes s) \<Longrightarrow>
      js_type (mapToJsonSchema n) \<in> set lowercaseTypeNames
      \<and> (js_type (mapToJsonSchema n) = ''object''
           \<longrightarrow> js_additionalProperties (mapToJsonSchema n) = Some False)"
    using wf
    by (fastforce simp: mapToJsonSchema_node toLowerCase_type_name toLowerCase_object_iff)
  have nodewise: "\<forall>n \<in> set (nodes s).
      js_type (mapToJsonSchema n) = toLowerCase (SchemaType_value (type n))
      \<and> js_type (mapToJsonSchema n) \<in> set lowercaseTypeNames
      \<and> (type n = OBJECT \<longrightarrow> js_additionalProperties (mapToJsonSchema n) = Some False)"
    using wf by (fastforce simp: mapToJsonSchema_node toLowerCase_type_name)
  have sub: "set (jsonSchemaNodes (mapToJsonSchema s)) \<subseteq> mapToJsonSchema ` set (nodes s)"
    by (rule jsonSchemaNodes_subset)
  have eq: "ordinaryNames s \<longrightarrow>
      set (jsonSchemaNodes (mapToJsonSchema s)) = mapToJsonSchema ` set (nodes s)"
    using sub jsonSchemaNodes_superset [of s] by blast
  have "\<forall>j \<in> set (jsonSchemaNodes (mapToJsonSchema s)).
           js_type j \<in> set lowercaseTypeNames
           \<and> (js_type j = ''object'' \<longrightarrow> js_additionalProperties j = Some False)"
    using sub each by blast
  with nodewise sub eq show ?thesis
    by blast
qed

text \<open>The schema of the Auditor stage: both of its \<open>OBJECT\<close> nodes, the root and the element
  of \<open>security_issues\<close>, come out closed.\<close>

theorem mapToJsonSchema_closes_objects_witness:
  "wellFormed auditorSchema \<and> ordinaryNames auditorSchema
   \<and> js_type (mapToJsonSchema auditorSchema) = ''object''
   \<and> js_type (mapToJsonSchema auditorSchema) \<in> set lowercaseTypeNames
   \<and> js_additionalProperties (mapToJsonSchema auditorSchema) = Some False
   \<and> set (jsonSchemaNodes (mapToJsonSchema auditorSchema))
        = mapToJsonSchema ` set (nodes auditorSchema)
   \<and> map js_additionalProperties
        (filter (\<lambda>j. js_type j = ''object'') (jsonSchemaNodes (mapToJsonSchema auditorSchema)))
      = [Some False, Some False]"
proof -
  have wf: "wellFormed auditorSchema"
    by code_simp
  have ord: "ordinaryNames auditorSchema"
    by code_simp
  have root: "auditorSchema \<in> set (nodes auditorSchema)" "type auditorSchema = OBJECT"
    by (simp_all add: auditorSchema_def)
  have result: "mapToJsonSchema auditorSchema
      \<in> set (jsonSchemaNodes (mapToJsonSchema auditorSchema))"
    by (rule jsonSchemaNodes_self)
  have all: "map js_additionalProperties
        (filter (\<lambda>j. js_type j = ''object'') (jsonSchemaNodes (mapToJsonSchema auditorSchema)))
      = [Some False, Some False]"
    by code_simp
  note t = mapToJsonSchema_closes_objects [OF wf]
  from t root
  have "js_type (mapToJsonSchema auditorSchema) = toLowerCase (SchemaType_value OBJECT)
      \<and> js_additionalProperties (mapToJsonSchema auditorSchema) = Some False"
    by fastforce
  then have a: "js_type (mapToJsonSchema auditorSchema) = ''object''
      \<and> js_additionalProperties (mapToJsonSchema auditorSchema) = Some False"
    by (simp add: toLowerCase_values)
  from t ord
  have b: "set (jsonSchemaNodes (mapToJsonSchema auditorSchema))
      = mapToJsonSchema ` set (nodes auditorSchema)"
    by blast
  from t result
  have c: "js_type (mapToJsonSchema auditorSchema) \<in> set lowercaseTypeNames"
    by blast
  from wf ord a b c all show ?thesis
    by (intro conjI) blast+
qed

text \<open>A property named \<open>__proto__\<close> is translated, but the assignment creates no own
  property: the translation of \<open>protoSchema\<close> has the one property \<open>name\<close>.\<close>

lemma mapToJsonSchema_protoSchema:
  "wellFormed protoSchema
   \<and> map fst (the (js_properties (mapToJsonSchema protoSchema))) = [''name'']
   \<and> length (nodes protoSchema) = 3
   \<and> length (jsonSchemaNodes (mapToJsonSchema protoSchema)) = 2
   \<and> js_additionalProperties (mapToJsonSchema protoSchema) = Some False"
  by code_simp

section \<open>Properties of the credentials\<close>

lemma requests_onLog [simp]: "requests (onLog st e) = requests st"
  by (simp add: onLog_def)

lemma requests_onProgress [simp]: "requests (onProgress st s) = requests st"
  by (simp add: onProgress_def)

lemma no_credential:
  assumes "sessionKey (provider sel) keys = []"
      and "\<not> truthyStr (getStoredApiKey env (provider sel))"
  shows "\<not> truthyStr (resolveApiKey env (provider sel) (Some keys))"
  using assms by (cases "provider sel") (auto simp: resolveApiKey_def sessionKey_def)

lemma runAnalyst_no_key:
  "\<not> truthyStr (resolveApiKey env (provider sel) (Some keys)) \<Longrightarrow>
   snd (runAnalyst env sel keys code st) = Inl (missingKeySettings (provider sel))
   \<and> requests (fst (runAnalyst env sel keys code st)) = requests st"
  by (simp add: runAnalyst_def Let_def)

lemma runArchitect_no_key:
  "\<not> truthyStr (resolveApiKey env (provider sel) (Some keys)) \<Longrightarrow>
   snd (runArchitect env sel keys p ctx st) = Inl (missingKeyCheck (provider sel))
   \<and> requests (fst (runArchitect env sel keys p ctx st)) = requests st"
  by (simp add: runArchitect_def Let_def)

lemma runCoder_no_key:
  "\<not> truthyStr (resolveApiKey env (provider sel) (Some keys)) \<Longrightarrow>
   snd (runCoder env sel keys p arch ctx st) = Inl (missingKeyCheck (provider sel))
   \<and> requests (fst (runCoder env sel keys p arch ctx st)) = requests st"
  by (simp add: runCoder_def Let_def)

lemma runAuditor_no_key:
  "\<not> truthyStr (resolveApiKey env (provider sel) (Some keys)) \<Longrightarrow>
   snd (runAuditor env sel keys ctx files st) = Inl (missingKeyCheck (provider sel))
   \<and> requests (fst (runAuditor env sel keys ctx files st)) = requests st"
  by (simp add: runAuditor_def Let_def)

lemma transport_error_not_configuration:
  "generateContent env client params = Inl e \<Longrightarrow> \<not> isConfigurationError e"
  by (auto simp: generateContent_def isConfigurationError_def
           split: sum.splits LlmProvider.splits)

lemma missing_key_is_configuration:
  "isConfigurationError (missingKeySettings p)" "isConfigurationError (missingKeyCheck p)"
  by (simp_all add: isConfigurationError_def missingKeySettings_def missingKeyCheck_def)

lemma session_key_first:
  "sessionKey p keys \<noteq> [] \<Longrightarrow> resolveApiKey env p (Some keys) = Some (sessionKey p keys)"
  by (cases p) (auto simp: resolveApiKey_def sessionKey_def)

text \<open>
  Claim C8. When the call passes no credential for the requested provider and none is
  stored, each of the four stages fails with the missing-key error and the list of requests
  handed to a provider client is what it was before the stage. That error is told apart
  from every error a provider client raises: its message starts with
  \<open>Missing API Key for\<close>, theirs with the provider's name. A credential passed with the
  call is the one resolved, whatever is stored.
\<close>

theorem missing_credential_fails_before_any_request:
  assumes "sessionKey (provider sel) keys = []"
      and "\<not> truthyStr (getStoredApiKey env (provider sel))"
  shows "(snd (runAnalyst env sel keys code st) = Inl (missingKeySettings (provider sel))
          \<and> requests (fst (runAnalyst env sel keys code st)) = requests st)
       \<and> (snd (runArchitect env sel keys p ctx st) = Inl (missingKeyCheck (provider sel))
          \<and> requests (fst (runArchitect env sel keys p ctx st)) = requests st)
       \<and> (snd (runCoder env sel keys p arch ctx st) = Inl (missingKeyCheck (provider sel))
          \<and> requests (fst (runCoder env sel keys p arch ctx st)) = requests st)
       \<and> (snd (runAuditor env sel keys ctx files st) = Inl (missingKeyCheck (provider sel))
          \<and> requests (fst (runAuditor env sel keys ctx files st)) = requests st)
       \<and> isConfigurationError (missingKeySettings (provider sel))
       \<and> isConfigurationError (missingKeyCheck (provider sel))
       \<and> (\<forall>client params e. generateContent env client params = Inl e
             \<longrightarrow> \<not> isConfigurationError e)
       \<and> (\<forall>ks q. sessionKey q ks \<noteq> []
             \<longrightarrow> resolveApiKey env q (Some ks) = Some (sessionKey q ks))"
  using no_credential [OF assms]
  by (simp add: runAnalyst_no_key runArchitect_no_key runCoder_no_key runAuditor_no_key
        missing_key_is_configuration transport_error_not_configuration session_key_first)

text \<open>A Google key is passed, OpenRouter is requested and nothing is stored: the Coder
  fails before any request.\<close>

theorem missing_credential_fails_before_any_request_witness:
  "sessionKey (provider \<lparr>provider = provider_openrouter, model = ''m''\<rparr>)
      sampleKeys = []
   \<and> \<not> truthyStr (getStoredApiKey (samplePlatform [] offlineBackend)
                     (provider \<lparr>provider = provider_openrouter, model = ''m''\<rparr>))
   \<and> snd (runCoder (samplePlatform [] offlineBackend)
             \<lparr>provider = provider_openrouter, model = ''m''\<rparr>
             sampleKeys JNull ''plan'' [] emptyRun)
       = Inl (Error ''Missing API Key for openrouter. Check Settings.'')
   \<and> requests (fst (runCoder (samplePlatform [] offlineBackend)
             \<lparr>provider = provider_openrouter, model = ''m''\<rparr>
             sampleKeys JNull ''plan'' [] emptyRun)) = []"
proof -
  have h1: "sessionKey (provider \<lparr>provider = provider_openrouter, model = ''m''\<rparr>)
      sampleKeys = []"
    by (simp add: sessionKey_def sampleKeys_def)
  have h2: "\<not> truthyStr (getStoredApiKey (samplePlatform [] offlineBackend)
                     (provider \<lparr>provider = provider_openrouter, model = ''m''\<rparr>))"
    by (simp add: getStoredApiKey_def samplePlatform_def truthyStr_def)
  show ?thesis
    using h1 h2
      missing_credential_fails_before_any_request [OF h1 h2,
        where p = JNull and arch = "''plan''" and ctx = "[]" and st = emptyRun]
    by (simp add: missingKeyCheck_def emptyRun_def)
qed

section \<open>Properties of the run state\<close>

lemma progress_onLog [simp]: "progress (onLog st e) = progress st"
  by (simp add: onLog_def)

lemma progress_sendRequest [simp]: "progress (sendRequest st c r) = progress st"
  by (simp add: sendRequest_def)

lemma progress_onProgress [simp]: "progress (onProgress st s) = progress st @ [s]"
  by (simp add: onProgress_def)

lemma logs_onLog [simp]: "logs (onLog st e) = logs st @ [e]"
  by (simp add: onLog_def)

lemma logs_sendRequest [simp]: "logs (sendRequest st c r) = logs st"
  by (simp add: sendRequest_def)

lemma logs_onProgress [simp]: "logs (onProgress st s) = logs st"
  by (simp add: onProgress_def)

lemma requests_sendRequest [simp]: "requests (sendRequest st c r) = requests st @ [(c, r)]"
  by (simp add: sendRequest_def)

text \<open>No stage runner reports a step.\<close>

lemma progress_runAnalyst [simp]:
  "progress (fst (runAnalyst env sel keys code st)) = progress st"
  by (simp add: runAnalyst_def Let_def split: sum.splits)

lemma progress_runArchitect [simp]:
  "progress (fst (runArchitect env sel keys p ctx st)) = progress st"
  by (simp add: runArchitect_def Let_def split: sum.splits)

lemma progress_strictExtraction [simp]:
  "progress (fst (strictExtraction env t st)) = progress st"
  by (simp add: strictExtraction_def Let_def
           split: sum.splits option.splits json.splits prod.splits)

lemma progress_extractFiles [simp]:
  "progress (fst (extractFiles env t st)) = progress st"
proof -
  obtain st1 fm ok where s: "strictExtraction env t st = (st1, fm, ok)"
    by (cases "strictExtraction env t st") auto
  then have "progress st1 = progress st"
    using progress_strictExtraction [of env t st] by simp
  with s show ?thesis by (simp add: extractFiles_def Let_def)
qed

lemma progress_runCoder [simp]:
  "progress (fst (runCoder env sel keys p arch ctx st)) = progress st"
  by (simp add: runCoder_def Let_def split: sum.splits)

lemma progress_runAuditor [simp]:
  "progress (fst (runAuditor env sel keys ctx files st)) = progress st"
  by (simp add: runAuditor_def Let_def split: sum.splits)

text \<open>What the Analyst returns does not depend on the state it starts from.\<close>

lemma snd_runAnalyst_state:
  "snd (runAnalyst env sel keys code st) = snd (runAnalyst env sel keys code st')"
  by (simp add: runAnalyst_def Let_def split: sum.splits)

section \<open>Properties of the orchestrator\<close>

text \<open>The steps that \<open>completeMigration\<close> reports start with \<open>ARCHITECT\<close> and never include
  \<open>WAITING_FOR_USER\<close>.\<close>

lemma completeMigration_progress:
  "\<exists>rest. progress (fst (completeMigration env p ctx cfg keys st)) = progress st @ ARCHITECT # rest
     \<and> set rest \<subseteq> {CODER, AUDITOR, COMPLETE, ERROR}"
proof -
  let ?a = "runArchitect env (cfg ARCHITECT) keys p ctx (onProgress st ARCHITECT)"
  obtain st1 r1 where a: "?a = (st1, r1)" by (cases ?a) auto
  have p1: "progress st1 = progress st @ [ARCHITECT]"
    using progress_runArchitect [of env "cfg ARCHITECT" keys p ctx "onProgress st ARCHITECT"] a
    by simp
  show ?thesis
  proof (cases r1)
    case (Inl e)
    with a p1 show ?thesis by (simp add: completeMigration_def)
  next
    case (Inr arch)
    let ?c = "runCoder env (cfg CODER) keys p arch ctx (onProgress st1 CODER)"
    obtain st2 r2 where c: "?c = (st2, r2)" by (cases ?c) auto
    have p2: "progress st2 = progress st @ [ARCHITECT, CODER]"
      using progress_runCoder [of env "cfg CODER" keys p arch ctx "onProgress st1 CODER"] c p1
      by simp
    show ?thesis
    proof (cases r2)
      case (Inl e)
      with a Inr c p2 show ?thesis by (simp add: completeMigration_def)
    next
      case files: (Inr files)
      let ?d = "runAuditor env (cfg AUDITOR) keys ctx files (onProgress st2 AUDITOR)"
      obtain st3 r3 where d: "?d = (st3, r3)" by (cases ?d) auto
      have p3: "progress st3 = progress st @ [ARCHITECT, CODER, AUDITOR]"
        using progress_runAuditor [of env "cfg AUDITOR" keys ctx files "onProgress st2 AUDITOR"]
          d p2
        by simp
      show ?thesis
      proof (cases r3)
        case (Inl e)
        with a Inr c files d p3 show ?thesis by (simp add: completeMigration_def)
      next
        case audit: (Inr auditResult)
        with a Inr c files d p3 show ?thesis
          by (simp add: completeMigration_def Let_def split: sum.splits)
      qed
    qed
  qed
qed

lemma needsFilesOf_array:
  "map_of kvs ''required_files'' = Some (JArray files) \<Longrightarrow>
   needsFilesOf env (JObject kvs) = Inr (Some (JBool (files \<noteq> [])))"
  by (simp add: needsFilesOf_def getProp_def lengthOf_def greaterThanZero_def)

lemma startAnalysis_plan:
  assumes "snd (runAnalyst env (cfg ANALYST) keys code emptyRun) = Inr pl"
      and "needsFilesOf env pl = Inr nf"
  shows "snd (startAnalysis env code cfg keys st) = Inr (pl, nf)"
    and "progress (fst (startAnalysis env code cfg keys st)) = progress st @ [ANALYST]"
proof -
  let ?a = "runAnalyst env (cfg ANALYST) keys code (onProgress st ANALYST)"
  obtain st1 r where a: "?a = (st1, r)" by (cases ?a) auto
  have "r = Inr pl"
    using snd_runAnalyst_state [of env "cfg ANALYST" keys code "onProgress st ANALYST" emptyRun]
      a assms(1)
    by simp
  moreover have "progress st1 = progress st @ [ANALYST]"
    using progress_runAnalyst [of env "cfg ANALYST" keys code "onProgress st ANALYST"] a by simp
  ultimately show "snd (startAnalysis env code cfg keys st) = Inr (pl, nf)"
    and "progress (fst (startAnalysis env code cfg keys st)) = progress st @ [ANALYST]"
    using a assms(2) by (simp_all add: startAnalysis_def)
qed

text \<open>
  Claim C2. Let the Analyst return a Plan whose \<open>required_files\<close> is a list. Then
  \<open>startAnalysis\<close> returns \<open>needsFiles\<close> \<open>true\<close> exactly when the list has an entry. With an
  entry, the application reports \<open>ANALYST\<close> and then \<open>WAITING_FOR_USER\<close> and stops; with
  the empty list it goes on to \<open>ARCHITECT\<close> and no later step of the run is
  \<open>WAITING_FOR_USER\<close>. (\<open>ANALYST\<close> is reported twice, by the application and by
  \<open>startAnalysis\<close>.)
\<close>

theorem waiting_iff_required_files:
  assumes nonblank: "trim (inputCode app) \<noteq> []"
      and config: "app_modelConfig app = Some cfg"
      and analyst: "snd (runAnalyst env (cfg ANALYST) (app_apiKeys app) (inputCode app) emptyRun)
                     = Inr (JObject kvs)"
      and files: "map_of kvs ''required_files'' = Some (JArray files)"
  shows "snd (startAnalysis env (inputCode app) cfg (app_apiKeys app) st)
           = Inr (JObject kvs, Some (JBool (files \<noteq> [])))
     \<and> (files \<noteq> [] \<longrightarrow>
          progress (run (handleStartAnalysis env app))
            = progress (run app) @ [ANALYST, ANALYST, WAITING_FOR_USER])
     \<and> (files = [] \<longrightarrow>
          (\<exists>rest. progress (run (handleStartAnalysis env app))
                     = progress (run app) @ [ANALYST, ANALYST, ARCHITECT] @ rest
                 \<and> WAITING_FOR_USER \<notin> set rest))"
proof -
  let ?st0 = "(onProgress (run app) ANALYST)\<lparr>logs := []\<rparr>"
  let ?s = "startAnalysis env (inputCode app) cfg (app_apiKeys app) ?st0"
  note nf = needsFilesOf_array [OF files, of env]
  note sa = startAnalysis_plan [where cfg = cfg, OF analyst nf]
  obtain st1 where s: "?s = (st1, Inr (JObject kvs, Some (JBool (files \<noteq> []))))"
    using sa(1) [of ?st0] by (cases ?s) auto
  have p1: "progress st1 = progress (run app) @ [ANALYST, ANALYST]"
    using sa(2) [of ?st0] s by (simp add: onProgress_def)
  have waiting: "files \<noteq> [] \<longrightarrow>
          progress (run (handleStartAnalysis env app))
            = progress (run app) @ [ANALYST, ANALYST, WAITING_FOR_USER]"
    using nonblank config s p1 by (simp add: handleStartAnalysis_def Let_def truthyVal_def)
  have direct: "files = [] \<longrightarrow>
          (\<exists>rest. progress (run (handleStartAnalysis env app))
                     = progress (run app) @ [ANALYST, ANALYST, ARCHITECT] @ rest
                 \<and> WAITING_FOR_USER \<notin> set rest)"
  proof
    assume e: "files = []"
    let ?c = "completeMigration env (JObject kvs) [(''main.legacy'', inputCode app)] cfg
                (app_apiKeys app) st1"
    obtain rest where r: "progress (fst ?c) = progress st1 @ ARCHITECT # rest"
        "set rest \<subseteq> {CODER, AUDITOR, COMPLETE, ERROR}"
      using completeMigration_progress by blast
    obtain st2 res where c: "?c = (st2, res)" by (cases ?c) auto
    have "progress (run (handleStartAnalysis env app))
            = progress st1 @ ARCHITECT # rest @ (case res of Inl _ \<Rightarrow> [ERROR] | Inr _ \<Rightarrow> [])"
      using nonblank config s e c r(1)
      by (simp add: handleStartAnalysis_def Let_def truthyVal_def split: sum.splits)
    moreover have "WAITING_FOR_USER
        \<notin> set (rest @ (case res of Inl _ \<Rightarrow> [ERROR] | Inr _ \<Rightarrow> []))"
      using r(2) by (auto split: sum.splits)
    ultimately show "\<exists>rest. progress (run (handleStartAnalysis env app))
                     = progress (run app) @ [ANALYST, ANALYST, ARCHITECT] @ rest
                 \<and> WAITING_FOR_USER \<notin> set rest"
      using p1
      by (intro exI [of _ "rest @ (case res of Inl _ \<Rightarrow> [ERROR] | Inr _ \<Rightarrow> [])"]) simp
  qed
  from sa(1) [of st] waiting direct show ?thesis by blast
qed

text \<open>A Plan that names \<open>a.php\<close> stops the application at \<open>WAITING_FOR_USER\<close>; a Plan that
  names no file does not.\<close>

theorem waiting_iff_required_files_witness:
  "trim (inputCode (sampleApp ''<?php'')) \<noteq> []
   \<and> app_modelConfig (sampleApp ''<?php'') = Some sampleConfig
   \<and> snd (runAnalyst (analystAnswers onePlanText onePlan) (sampleConfig ANALYST)
             (app_apiKeys (sampleApp ''<?php'')) (inputCode (sampleApp ''<?php'')) emptyRun)
       = Inr (JObject [(''required_files'', JArray [JString ''a.php''])])
   \<and> map_of [(''required_files'', JArray [JString ''a.php''])] ''required_files''
       = Some (JArray [JString ''a.php''])
   \<and> progress (run (handleStartAnalysis (analystAnswers onePlanText onePlan) (sampleApp ''<?php'')))
       = [ANALYST, ANALYST, WAITING_FOR_USER]
   \<and> snd (runAnalyst (analystAnswers noFilesPlanText noFilesPlan) (sampleConfig ANALYST)
             (app_apiKeys (sampleApp ''<?php'')) (inputCode (sampleApp ''<?php'')) emptyRun)
       = Inr (JObject [(''required_files'', JArray [])])
   \<and> WAITING_FOR_USER
       \<notin> set (progress (run (handleStartAnalysis (analystAnswers noFilesPlanText noFilesPlan)
                                (sampleApp ''<?php''))))"
proof -
  have h1: "trim (inputCode (sampleApp ''<?php'')) \<noteq> []"
    by code_simp
  have h2: "app_modelConfig (sampleApp ''<?php'') = Some sampleConfig"
    by (simp add: sampleApp_def)
  have h3: "snd (runAnalyst (analystAnswers onePlanText onePlan) (sampleConfig ANALYST)
             (app_apiKeys (sampleApp ''<?php'')) (inputCode (sampleApp ''<?php'')) emptyRun)
       = Inr (JObject [(''required_files'', JArray [JString ''a.php''])])"
    by code_simp
  have h4: "map_of [(''required_files'', JArray [JString ''a.php''])] ''required_files''
       = Some (JArray [JString ''a.php''])"
    by simp
  have h5: "snd (runAnalyst (analystAnswers noFilesPlanText noFilesPlan) (sampleConfig ANALYST)
             (app_apiKeys (sampleApp ''<?php'')) (inputCode (sampleApp ''<?php'')) emptyRun)
       = Inr (JObject [(''required_files'', JArray [])])"
    by code_simp
  have h6: "map_of [(''required_files'', JArray [])] ''required_files'' = Some (JArray [])"
    by simp
  have start: "progress (run (sampleApp ''<?php'')) = []"
    by (simp add: sampleApp_def emptyRun_def)
  from waiting_iff_required_files [OF h1 h2 h3 h4, of emptyRun] start
  have a: "progress (run (handleStartAnalysis (analystAnswers onePlanText onePlan)
                            (sampleApp ''<?php'')))
       = [ANALYST, ANALYST, WAITING_FOR_USER]"
    by simp
  from waiting_iff_required_files [OF h1 h2 h5 h6, of emptyRun] start
  have b: "WAITING_FOR_USER
       \<notin> set (progress (run (handleStartAnalysis (analystAnswers noFilesPlanText noFilesPlan)
                                (sampleApp ''<?php''))))"
    by auto
  from h1 h2 h3 h4 h5 a b show ?thesis by simp
qed

section \<open>Properties of the Analyst stage\<close>

lemma cleanLlmOutput_braces: "cleanLlmOutput ''{}'' = ''{}''"
  by code_simp

lemma createLlmClient_key:
  "k \<noteq> [] \<Longrightarrow> createLlmClient env p (Some k) = Inr \<lparr>client_provider = p, client_key = k\<rparr>"
  by (cases p) (simp_all add: createLlmClient_def orElse_def truthyStr_def)

lemma runAnalyst_empty_answer:
  assumes "resolveApiKey env (provider sel) (Some keys) = Some k" and "k \<noteq> []"
      and "transport env (provider sel) k (analystRequest env sel code) = Inr response"
      and "response_text response = []"
      and "JSON_parse env ''{}'' = Inr (JObject [])"
  shows "snd (runAnalyst env sel keys code st) = Inr (JObject [])"
    and "last (logs (fst (runAnalyst env sel keys code st)))
           = createLog ANALYST log_response ''{}'' (response_usage response)"
  using assms
  by (simp_all add: runAnalyst_def Let_def truthyStr_def createLlmClient_key generateContent_def
        analystRequest_def cleanLlmOutput_braces)

text \<open>
  Claim C10, as amended. When a credential is resolved and the provider answers the Analyst's request
  with the empty text, the Analyst does not fail: the text logged and parsed is \<open>{}\<close>, the
  Plan is the object without any property, and \<open>startAnalysis\<close> returns it without
  reporting \<open>ERROR\<close>. The \<open>needsFiles\<close> it returns is falsy (it is \<open>undefined\<close>, the value
  of the missing property \<open>required_files\<close>).
\<close>

theorem empty_analyst_answer_is_empty_plan:
  assumes key: "resolveApiKey env (provider (cfg ANALYST)) (Some keys) = Some k" "k \<noteq> []"
      and answer: "transport env (provider (cfg ANALYST)) k (analystRequest env (cfg ANALYST) code)
                    = Inr response"
      and empty: "response_text response = []"
      and parse: "JSON_parse env ''{}'' = Inr (JObject [])"
  shows "snd (runAnalyst env (cfg ANALYST) keys code st) = Inr (JObject [])
     \<and> last (logs (fst (runAnalyst env (cfg ANALYST) keys code st)))
         = createLog ANALYST log_response ''{}'' (response_usage response)
     \<and> (\<forall>name. getProp env (JObject []) name = Inr None)
     \<and> snd (startAnalysis env code cfg keys st) = Inr (JObject [], None)
     \<and> (\<forall>pl needsFiles. snd (startAnalysis env code cfg keys st) = Inr (pl, needsFiles)
           \<longrightarrow> \<not> truthyVal needsFiles)
     \<and> progress (fst (startAnalysis env code cfg keys st)) = progress st @ [ANALYST]"
proof -
  have a: "snd (runAnalyst env (cfg ANALYST) keys code s) = Inr (JObject [])" for s
    using runAnalyst_empty_answer(1) [OF key answer empty parse] .
  have nf: "needsFilesOf env (JObject []) = Inr None"
    by (simp add: needsFilesOf_def getProp_def)
  note sa = startAnalysis_plan [where cfg = cfg, OF a nf]
  from a sa runAnalyst_empty_answer(2) [OF key answer empty parse] show ?thesis
    by (simp add: truthyVal_def getProp_def)
qed

text \<open>A backend that answers every request with the empty text.\<close>

theorem empty_analyst_answer_is_empty_plan_witness:
  "resolveApiKey (samplePlatform [(''{}'', JObject [])] silentBackend)
      (provider (sampleConfig ANALYST)) (Some sampleKeys) = Some ''g-key''
   \<and> ''g-key'' \<noteq> []
   \<and> transport (samplePlatform [(''{}'', JObject [])] silentBackend)
        (provider (sampleConfig ANALYST)) ''g-key''
        (analystRequest (samplePlatform [(''{}'', JObject [])] silentBackend)
           (sampleConfig ANALYST) ''<?php'')
       = Inr \<lparr>response_text = [], response_usage = None\<rparr>
   \<and> response_text \<lparr>response_text = [], response_usage = None\<rparr> = []
   \<and> JSON_parse (samplePlatform [(''{}'', JObject [])] silentBackend) ''{}'' = Inr (JObject [])
   \<and> snd (startAnalysis (samplePlatform [(''{}'', JObject [])] silentBackend) ''<?php''
             sampleConfig sampleKeys emptyRun) = Inr (JObject [], None)
   \<and> progress (fst (startAnalysis (samplePlatform [(''{}'', JObject [])] silentBackend) ''<?php''
             sampleConfig sampleKeys emptyRun)) = [ANALYST]"
proof -
  have h1: "resolveApiKey (samplePlatform [(''{}'', JObject [])] silentBackend)
      (provider (sampleConfig ANALYST)) (Some sampleKeys) = Some ''g-key''"
    by (simp add: resolveApiKey_def sampleConfig_def sampleKeys_def)
  have h2: "''g-key'' \<noteq> []"
    by simp
  have h3: "transport (samplePlatform [(''{}'', JObject [])] silentBackend)
        (provider (sampleConfig ANALYST)) ''g-key''
        (analystRequest (samplePlatform [(''{}'', JObject [])] silentBackend)
           (sampleConfig ANALYST) ''<?php'')
       = Inr \<lparr>response_text = [], response_usage = None\<rparr>"
    by (simp add: samplePlatform_def silentBackend_def)
  have h4: "response_text \<lparr>response_text = [], response_usage = None\<rparr> = []"
    by simp
  have h5: "JSON_parse (samplePlatform [(''{}'', JObject [])] silentBackend) ''{}''
      = Inr (JObject [])"
    by (simp add: samplePlatform_def)
  from empty_analyst_answer_is_empty_plan [where cfg = sampleConfig and st = emptyRun,
      OF h1 h2 h3 h4 h5] h1 h3 h5
  show ?thesis
    by (simp add: emptyRun_def)
qed

text \<open>
  Claim C10 as stated fails: with the empty answer \<open>startAnalysis\<close> returns the empty Plan,
  but the \<open>needsFiles\<close> beside it is \<open>undefined\<close>, the value of \<open>plan.required_files\<close>, and
  not \<open>false\<close>.
\<close>

theorem empty_plan_needsFiles_is_undefined:
  "transport (samplePlatform [(''{}'', JObject [])] silentBackend)
       (provider (sampleConfig ANALYST)) ''g-key''
       (analystRequest (samplePlatform [(''{}'', JObject [])] silentBackend)
          (sampleConfig ANALYST) ''<?php'')
     = Inr \<lparr>response_text = [], response_usage = None\<rparr>
   \<and> snd (startAnalysis (samplePlatform [(''{}'', JObject [])] silentBackend) ''<?php''
             sampleConfig sampleKeys emptyRun) = Inr (JObject [], None)
   \<and> snd (startAnalysis (samplePlatform [(''{}'', JObject [])] silentBackend) ''<?php''
             sampleConfig sampleKeys emptyRun) \<noteq> Inr (JObject [], Some (JBool False))"
  by code_simp

section \<open>Failure of a stage\<close>

lemma errorEntries_append [simp]: "errorEntries (xs @ ys) = errorEntries xs @ errorEntries ys"
  by (simp add: errorEntries_def)

lemma errorEntries_Nil [simp]: "errorEntries [] = []"
  by (simp add: errorEntries_def)

lemma errorEntries_Cons [simp]:
  "errorEntries (l # ls) = (if entry_type l = log_error then l # errorEntries ls else errorEntries ls)"
  by (simp add: errorEntries_def)

lemma entry_type_createLog [simp]: "entry_type (createLog s t c tk) = t"
  by (simp add: createLog_def)

lemma errorEntries_runArchitect [simp]:
  "errorEntries (logs (fst (runArchitect env sel keys p ctx st))) = errorEntries (logs st)"
  by (simp add: runArchitect_def Let_def split: sum.splits)

lemma errorEntries_strictExtraction [simp]:
  "errorEntries (logs (fst (strictExtraction env t st))) = errorEntries (logs st)"
  by (simp add: strictExtraction_def Let_def parseFailed_def
           split: sum.splits option.splits json.splits prod.splits)

lemma errorEntries_extractFiles [simp]:
  "errorEntries (logs (fst (extractFiles env t st))) = errorEntries (logs st)"
proof -
  obtain st1 fm ok where s: "strictExtraction env t st = (st1, fm, ok)"
    by (cases "strictExtraction env t st") auto
  then have "errorEntries (logs st1) = errorEntries (logs st)"
    using errorEntries_strictExtraction [of env t st] by simp
  with s show ?thesis by (simp add: extractFiles_def Let_def)
qed

lemma errorEntries_runCoder [simp]:
  "errorEntries (logs (fst (runCoder env sel keys p arch ctx st))) = errorEntries (logs st)"
  by (simp add: runCoder_def Let_def split: sum.splits)

lemma errorEntries_runAuditor [simp]:
  "errorEntries (logs (fst (runAuditor env sel keys ctx files st))) = errorEntries (logs st)"
  by (simp add: runAuditor_def Let_def split: sum.splits)

lemma generateContent_not_invalidJson:
  "generateContent env client params = Inl e \<Longrightarrow> e \<noteq> analystInvalidJson"
  by (auto simp: generateContent_def analystInvalidJson_def
           split: sum.splits LlmProvider.splits)

lemma createLlmClient_not_invalidJson:
  "createLlmClient env p k = Inl e \<Longrightarrow> e \<noteq> analystInvalidJson"
  by (auto simp: createLlmClient_def analystInvalidJson_def Let_def
           split: LlmProvider.splits option.splits if_splits)

lemma missingKeySettings_not_invalidJson: "missingKeySettings p \<noteq> analystInvalidJson"
  by (simp add: missingKeySettings_def analystInvalidJson_def)

lemma errorEntries_runAnalyst:
  "length (errorEntries (logs (fst (runAnalyst env sel keys code st))))
     = length (errorEntries (logs st))
       + (if snd (runAnalyst env sel keys code st) = Inl analystInvalidJson then 1 else 0)"
  by (auto simp: runAnalyst_def Let_def missingKeySettings_not_invalidJson
           dest: generateContent_not_invalidJson createLlmClient_not_invalidJson
           split: sum.splits)
     (simp_all add: analystInvalidJson_def)

lemma completeMigration_cases:
  obtains
    (architect) st1 e where
      "runArchitect env (cfg ARCHITECT) keys p ctx (onProgress st ARCHITECT) = (st1, Inl e)"
      "completeMigration env p ctx cfg keys st = (onProgress st1 ERROR, Inl e)"
  | (coder) st1 arch st2 e where
      "runArchitect env (cfg ARCHITECT) keys p ctx (onProgress st ARCHITECT) = (st1, Inr arch)"
      "runCoder env (cfg CODER) keys p arch ctx (onProgress st1 CODER) = (st2, Inl e)"
      "completeMigration env p ctx cfg keys st = (onProgress st2 ERROR, Inl e)"
  | (auditor) st1 arch st2 files st3 e where
      "runArchitect env (cfg ARCHITECT) keys p ctx (onProgress st ARCHITECT) = (st1, Inr arch)"
      "runCoder env (cfg CODER) keys p arch ctx (onProgress st1 CODER) = (st2, Inr files)"
      "runAuditor env (cfg AUDITOR) keys ctx files (onProgress st2 AUDITOR) = (st3, Inl e)"
      "completeMigration env p ctx cfg keys st = (onProgress st3 ERROR, Inl e)"
  | (reading) st1 arch st2 files st3 auditResult name e where
      "runArchitect env (cfg ARCHITECT) keys p ctx (onProgress st ARCHITECT) = (st1, Inr arch)"
      "runCoder env (cfg CODER) keys p arch ctx (onProgress st1 CODER) = (st2, Inr files)"
      "runAuditor env (cfg AUDITOR) keys ctx files (onProgress st2 AUDITOR) = (st3, Inr auditResult)"
      "getProp env auditResult name = Inl e"
      "completeMigration env p ctx cfg keys st = (onProgress (onProgress st3 COMPLETE) ERROR, Inl e)"
  | (complete) st1 arch st2 files st3 auditResult res where
      "runArchitect env (cfg ARCHITECT) keys p ctx (onProgress st ARCHITECT) = (st1, Inr arch)"
      "runCoder env (cfg CODER) keys p arch ctx (onProgress st1 CODER) = (st2, Inr files)"
      "runAuditor env (cfg AUDITOR) keys ctx files (onProgress st2 AUDITOR) = (st3, Inr auditResult)"
      "completeMigration env p ctx cfg keys st = (onProgress st3 COMPLETE, Inr res)"
      "plan res = p" "generatedFiles res = files"
proof -
  let ?a = "runArchitect env (cfg ARCHITECT) keys p ctx (onProgress st ARCHITECT)"
  obtain st1 r1 where a: "?a = (st1, r1)" by (cases ?a) auto
  show ?thesis
  proof (cases r1)
    case (Inl e)
    with a show ?thesis by (intro architect [of st1 e]) (simp_all add: completeMigration_def)
  next
    case (Inr arch)
    let ?c = "runCoder env (cfg CODER) keys p arch ctx (onProgress st1 CODER)"
    obtain st2 r2 where c: "?c = (st2, r2)" by (cases ?c) auto
    show ?thesis
    proof (cases r2)
      case (Inl e)
      with a Inr c show ?thesis
        by (intro coder [of st1 arch st2 e]) (simp_all add: completeMigration_def)
    next
      case files: (Inr files)
      let ?d = "runAuditor env (cfg AUDITOR) keys ctx files (onProgress st2 AUDITOR)"
      obtain st3 r3 where d: "?d = (st3, r3)" by (cases ?d) auto
      show ?thesis
      proof (cases r3)
        case (Inl e)
        with a Inr c files d show ?thesis
          by (intro auditor [of st1 arch st2 files st3 e]) (simp_all add: completeMigration_def)
      next
        case audit: (Inr auditResult)
        show ?thesis
        proof (cases "getProp env auditResult ''security_issues''")
          case (Inl e)
          with a Inr c files d audit show ?thesis
            by (intro reading [of st1 arch st2 files st3 auditResult "''security_issues''" e])
               (simp_all add: completeMigration_def Let_def)
        next
          case issues: (Inr issues)
          show ?thesis
          proof (cases "getProp env auditResult ''comments''")
            case (Inl e)
            with a Inr c files d audit issues show ?thesis
              by (intro reading [of st1 arch st2 files st3 auditResult "''comments''" e])
                 (simp_all add: completeMigration_def Let_def)
          next
            case comments: (Inr comments)
            with a Inr c files d audit issues show ?thesis
              by (intro complete [of st1 arch st2 files st3 auditResult
                    "\<lparr>plan = p, generatedFiles = files,
                      securityReport = orDefault issues (JArray []),
                      auditorComments = orDefault comments (JString ''Audit completed.''),
                      modelConfig = cfg\<rparr>"])
                 (simp_all add: completeMigration_def Let_def)
          qed
        qed
      qed
    qed
  qed
qed

lemma needsFilesOf_not_invalidJson:
  "needsFilesOf env pl = Inl e \<Longrightarrow> e \<noteq> analystInvalidJson"
  by (auto simp: needsFilesOf_def getProp_def analystInvalidJson_def
           split: json.splits sum.splits option.splits if_splits)

lemma startAnalysis_failure:
  assumes "snd (startAnalysis env code cfg keys st) = Inl e"
  shows "progress (fst (startAnalysis env code cfg keys st)) = progress st @ [ANALYST, ERROR]
     \<and> logs (fst (startAnalysis env code cfg keys st))
         = logs (fst (runAnalyst env (cfg ANALYST) keys code (onProgress st ANALYST)))
     \<and> (snd (runAnalyst env (cfg ANALYST) keys code (onProgress st ANALYST)) = Inl e
         \<or> (\<exists>pl. snd (runAnalyst env (cfg ANALYST) keys code (onProgress st ANALYST)) = Inr pl
                  \<and> needsFilesOf env pl = Inl e))
     \<and> length (errorEntries (logs (fst (startAnalysis env code cfg keys st))))
         = length (errorEntries (logs st)) + (if e = analystInvalidJson then 1 else 0)"
proof -
  let ?a = "runAnalyst env (cfg ANALYST) keys code (onProgress st ANALYST)"
  obtain st1 r where a: "?a = (st1, r)" by (cases ?a) auto
  have p1: "progress st1 = progress st @ [ANALYST]"
    using progress_runAnalyst [of env "cfg ANALYST" keys code "onProgress st ANALYST"] a by simp
  have l1: "length (errorEntries (logs st1))
      = length (errorEntries (logs st)) + (if r = Inl analystInvalidJson then 1 else 0)"
    using errorEntries_runAnalyst [of env "cfg ANALYST" keys code "onProgress st ANALYST"] a by simp
  show ?thesis
  proof (cases r)
    case (Inl e')
    with assms a have "e' = e" by (simp add: startAnalysis_def)
    with Inl a p1 l1 show ?thesis by (simp add: startAnalysis_def)
  next
    case (Inr pl)
    with assms a have n: "needsFilesOf env pl = Inl e"
      by (simp add: startAnalysis_def split: sum.splits)
    with Inr a p1 l1 needsFilesOf_not_invalidJson [OF n] show ?thesis
      by (simp add: startAnalysis_def)
  qed
qed

lemma completeMigration_failure:
  assumes "snd (completeMigration env p ctx cfg keys st) = Inl e"
  shows "last (progress (fst (completeMigration env p ctx cfg keys st))) = ERROR
     \<and> errorEntries (logs (fst (completeMigration env p ctx cfg keys st))) = errorEntries (logs st)
     \<and> ((\<exists>s. snd (runArchitect env (cfg ARCHITECT) keys p ctx s) = Inl e)
        \<or> (\<exists>s arch. snd (runCoder env (cfg CODER) keys p arch ctx s) = Inl e)
        \<or> (\<exists>s files. snd (runAuditor env (cfg AUDITOR) keys ctx files s) = Inl e)
        \<or> (\<exists>s files auditResult name.
              snd (runAuditor env (cfg AUDITOR) keys ctx files s) = Inr auditResult
              \<and> getProp env auditResult name = Inl e))"
proof (cases rule: completeMigration_cases [of env cfg keys p ctx st])
  case (architect st1 e')
  have "errorEntries (logs st1) = errorEntries (logs st)"
    using errorEntries_runArchitect [of env "cfg ARCHITECT" keys p ctx "onProgress st ARCHITECT"]
      architect(1) by simp
  moreover have "snd (runArchitect env (cfg ARCHITECT) keys p ctx (onProgress st ARCHITECT)) = Inl e"
    using architect assms by simp
  ultimately show ?thesis using architect(2) by auto
next
  case (coder st1 arch st2 e')
  have "errorEntries (logs st1) = errorEntries (logs st)"
    using errorEntries_runArchitect [of env "cfg ARCHITECT" keys p ctx "onProgress st ARCHITECT"]
      coder(1) by simp
  moreover have "errorEntries (logs st2) = errorEntries (logs st1)"
    using errorEntries_runCoder [of env "cfg CODER" keys p arch ctx "onProgress st1 CODER"]
      coder(2) by simp
  moreover have "snd (runCoder env (cfg CODER) keys p arch ctx (onProgress st1 CODER)) = Inl e"
    using coder assms by simp
  ultimately show ?thesis using coder(3) by auto
next
  case (auditor st1 arch st2 files st3 e')
  have "errorEntries (logs st1) = errorEntries (logs st)"
    using errorEntries_runArchitect [of env "cfg ARCHITECT" keys p ctx "onProgress st ARCHITECT"]
      auditor(1) by simp
  moreover have "errorEntries (logs st2) = errorEntries (logs st1)"
    using errorEntries_runCoder [of env "cfg CODER" keys p arch ctx "onProgress st1 CODER"]
      auditor(2) by simp
  moreover have "errorEntries (logs st3) = errorEntries (logs st2)"
    using errorEntries_runAuditor [of env "cfg AUDITOR" keys ctx files "onProgress st2 AUDITOR"]
      auditor(3) by simp
  moreover have "snd (runAuditor env (cfg AUDITOR) keys ctx files (onProgress st2 AUDITOR)) = Inl e"
    using auditor assms by simp
  ultimately show ?thesis using auditor(4) by auto
next
  case (reading st1 arch st2 files st3 auditResult name e')
  have "errorEntries (logs st1) = errorEntries (logs st)"
    using errorEntries_runArchitect [of env "cfg ARCHITECT" keys p ctx "onProgress st ARCHITECT"]
      reading(1) by simp
  moreover have "errorEntries (logs st2) = errorEntries (logs st1)"
    using errorEntries_runCoder [of env "cfg CODER" keys p arch ctx "onProgress st1 CODER"]
      reading(2) by simp
  moreover have "errorEntries (logs st3) = errorEntries (logs st2)"
    using errorEntries_runAuditor [of env "cfg AUDITOR" keys ctx files "onProgress st2 AUDITOR"]
      reading(3) by simp
  moreover have "snd (runAuditor env (cfg AUDITOR) keys ctx files (onProgress st2 AUDITOR))
      = Inr auditResult \<and> getProp env auditResult name = Inl e"
    using reading assms by simp
  ultimately show ?thesis using reading(5) by auto
next
  case (complete st1 arch st2 files st3 auditResult res)
  with assms show ?thesis by simp
qed

text \<open>A stage that fails: what the entry point returns, reports and logs.\<close>

lemma startAnalysis_error_at_analyst:
  assumes a: "runAnalyst env (cfg ANALYST) keys code (onProgress st ANALYST) = (st1, Inl e)"
  shows "startAnalysis env code cfg keys st = (onProgress st1 ERROR, Inl e)"
    and "progress (fst (startAnalysis env code cfg keys st)) = progress st @ [ANALYST, ERROR]"
    and "logs (fst (startAnalysis env code cfg keys st)) = logs st1"
    and "length (errorEntries (logs (fst (startAnalysis env code cfg keys st))))
           = length (errorEntries (logs st)) + (if e = analystInvalidJson then 1 else 0)"
proof -
  show r: "startAnalysis env code cfg keys st = (onProgress st1 ERROR, Inl e)"
    using a by (simp add: startAnalysis_def)
  have "progress st1 = progress st @ [ANALYST]"
    using progress_runAnalyst [of env "cfg ANALYST" keys code "onProgress st ANALYST"] a by simp
  with r show "progress (fst (startAnalysis env code cfg keys st)) = progress st @ [ANALYST, ERROR]"
    by simp
  from r show "logs (fst (startAnalysis env code cfg keys st)) = logs st1"
    by simp
  have "length (errorEntries (logs st1))
      = length (errorEntries (logs st)) + (if e = analystInvalidJson then 1 else 0)"
    using errorEntries_runAnalyst [of env "cfg ANALYST" keys code "onProgress st ANALYST"] a by simp
  with r show "length (errorEntries (logs (fst (startAnalysis env code cfg keys st))))
           = length (errorEntries (logs st)) + (if e = analystInvalidJson then 1 else 0)"
    by simp
qed

lemma completeMigration_error_at_architect:
  assumes a: "runArchitect env (cfg ARCHITECT) keys p ctx (onProgress st ARCHITECT) = (st1, Inl e)"
  shows "completeMigration env p ctx cfg keys st = (onProgress st1 ERROR, Inl e)"
    and "progress (fst (completeMigration env p ctx cfg keys st)) = progress st @ [ARCHITECT, ERROR]"
    and "logs (fst (completeMigration env p ctx cfg keys st)) = logs st1"
    and "errorEntries (logs (fst (completeMigration env p ctx cfg keys st)))
           = errorEntries (logs st)"
proof -
  show r: "completeMigration env p ctx cfg keys st = (onProgress st1 ERROR, Inl e)"
    using a by (simp add: completeMigration_def)
  have "progress st1 = progress st @ [ARCHITECT]"
    using progress_runArchitect [of env "cfg ARCHITECT" keys p ctx "onProgress st ARCHITECT"] a
    by simp
  with r show "progress (fst (completeMigration env p ctx cfg keys st))
      = progress st @ [ARCHITECT, ERROR]"
    by simp
  from r show "logs (fst (completeMigration env p ctx cfg keys st)) = logs st1"
    by simp
  have "errorEntries (logs st1) = errorEntries (logs st)"
    using errorEntries_runArchitect [of env "cfg ARCHITECT" keys p ctx "onProgress st ARCHITECT"] a
    by simp
  with r show "errorEntries (logs (fst (completeMigration env p ctx cfg keys st)))
      = errorEntries (logs st)"
    by simp
qed

lemma completeMigration_error_at_coder:
  assumes a: "runArchitect env (cfg ARCHITECT) keys p ctx (onProgress st ARCHITECT)
                = (st1, Inr arch)"
      and c: "runCoder env (cfg CODER) keys p arch ctx (onProgress st1 CODER) = (st2, Inl e)"
  shows "completeMigration env p ctx cfg keys st = (onProgress st2 ERROR, Inl e)"
    and "progress (fst (completeMigration env p ctx cfg keys st))
           = progress st @ [ARCHITECT, CODER, ERROR]"
    and "logs (fst (completeMigration env p ctx cfg keys st)) = logs st2"
    and "errorEntries (logs (fst (completeMigration env p ctx cfg keys st)))
           = errorEntries (logs st)"
proof -
  show r: "completeMigration env p ctx cfg keys st = (onProgress st2 ERROR, Inl e)"
    using a c by (simp add: completeMigration_def)
  have p1: "progress st1 = progress st @ [ARCHITECT]"
    using progress_runArchitect [of env "cfg ARCHITECT" keys p ctx "onProgress st ARCHITECT"] a
    by simp
  have "progress st2 = progress st1 @ [CODER]"
    using progress_runCoder [of env "cfg CODER" keys p arch ctx "onProgress st1 CODER"] c
    by simp
  with r p1 show "progress (fst (completeMigration env p ctx cfg keys st))
      = progress st @ [ARCHITECT, CODER, ERROR]"
    by simp
  from r show "logs (fst (completeMigration env p ctx cfg keys st)) = logs st2"
    by simp
  have l1: "errorEntries (logs st1) = errorEntries (logs st)"
    using errorEntries_runArchitect [of env "cfg ARCHITECT" keys p ctx "onProgress st ARCHITECT"] a
    by simp
  have "errorEntries (logs st2) = errorEntries (logs st1)"
    using errorEntries_runCoder [of env "cfg CODER" keys p arch ctx "onProgress st1 CODER"] c
    by simp
  with r l1 show "errorEntries (logs (fst (completeMigration env p ctx cfg keys st)))
      = errorEntries (logs st)"
    by simp
qed

lemma completeMigration_error_at_auditor:
  assumes a: "runArchitect env (cfg ARCHITECT) keys p ctx (onProgress st ARCHITECT)
                = (st1, Inr arch)"
      and c: "runCoder env (cfg CODER) keys p arch ctx (onProgress st1 CODER) = (st2, Inr files)"
      and d: "runAuditor env (cfg AUDITOR) keys ctx files (onProgress st2 AUDITOR) = (st3, Inl e)"
  shows "completeMigration env p ctx cfg keys st = (onProgress st3 ERROR, Inl e)"
    and "progress (fst (completeMigration env p ctx cfg keys st))
           = progress st @ [ARCHITECT, CODER, AUDITOR, ERROR]"
    and "logs (fst (completeMigration env p ctx cfg keys st)) = logs st3"
    and "errorEntries (logs (fst (completeMigration env p ctx cfg keys st)))
           = errorEntries (logs st)"
proof -
  show r: "completeMigration env p ctx cfg keys st = (onProgress st3 ERROR, Inl e)"
    using a c d by (simp add: completeMigration_def)
  have p1: "progress st1 = progress st @ [ARCHITECT]"
    using progress_runArchitect [of env "cfg ARCHITECT" keys p ctx "onProgress st ARCHITECT"] a
    by simp
  have p2: "progress st2 = progress st1 @ [CODER]"
    using progress_runCoder [of env "cfg CODER" keys p arch ctx "onProgress st1 CODER"] c
    by simp
  have "progress st3 = progress st2 @ [AUDITOR]"
    using progress_runAuditor [of env "cfg AUDITOR" keys ctx files "onProgress st2 AUDITOR"] d
    by simp
  with r p1 p2 show "progress (fst (completeMigration env p ctx cfg keys st))
      = progress st @ [ARCHITECT, CODER, AUDITOR, ERROR]"
    by simp
  from r show "logs (fst (completeMigration env p ctx cfg keys st)) = logs st3"
    by simp
  have l1: "errorEntries (logs st1) = errorEntries (logs st)"
    using errorEntries_runArchitect [of env "cfg ARCHITECT" keys p ctx "onProgress st ARCHITECT"] a
    by simp
  have l2: "errorEntries (logs st2) = errorEntries (logs st1)"
    using errorEntries_runCoder [of env "cfg CODER" keys p arch ctx "onProgress st1 CODER"] c
    by simp
  have "errorEntries (logs st3) = errorEntries (logs st2)"
    using errorEntries_runAuditor [of env "cfg AUDITOR" keys ctx files "onProgress st2 AUDITOR"] d
    by simp
  with r l1 l2 show "errorEntries (logs (fst (completeMigration env p ctx cfg keys st)))
      = errorEntries (logs st)"
    by simp
qed

text \<open>
  Claim C1, as amended. When a stage fails, the entry point that runs it reports \<open>ERROR\<close>
  as the next step and returns the error of the stage as it is: this holds for the Analyst
  in \<open>startAnalysis\<close> and for the Architect, the Coder and the Auditor in
  \<open>completeMigration\<close>, each at the state the stages before it have left. The entry point
  appends no Log Entry of its own: the log is the one the failing stage leaves. A failure
  in \<open>completeMigration\<close> adds no error-kind entry; a failure in \<open>startAnalysis\<close> adds one,
  written by the Analyst stage, exactly when the error is the Analyst's
  \<open>Analyst failed to produce valid JSON.\<close> Whenever an entry point fails, for whatever
  reason, the last step reported is \<open>ERROR\<close> and the same count of error-kind entries holds.
\<close>

theorem stage_failure_reported_and_reraised:
  "(runAnalyst env (cfg ANALYST) keys code (onProgress st ANALYST) = (st', Inl e) \<longrightarrow>
      startAnalysis env code cfg keys st = (onProgress st' ERROR, Inl e)
      \<and> progress (fst (startAnalysis env code cfg keys st)) = progress st @ [ANALYST, ERROR]
      \<and> logs (fst (startAnalysis env code cfg keys st)) = logs st'
      \<and> length (errorEntries (logs (fst (startAnalysis env code cfg keys st))))
          = length (errorEntries (logs st)) + (if e = analystInvalidJson then 1 else 0))
   \<and> (runArchitect env (cfg ARCHITECT) keys p ctx (onProgress st ARCHITECT) = (st', Inl e) \<longrightarrow>
      completeMigration env p ctx cfg keys st = (onProgress st' ERROR, Inl e)
      \<and> progress (fst (completeMigration env p ctx cfg keys st))
          = progress st @ [ARCHITECT, ERROR]
      \<and> logs (fst (completeMigration env p ctx cfg keys st)) = logs st'
      \<and> errorEntries (logs (fst (completeMigration env p ctx cfg keys st)))
          = errorEntries (logs st))
   \<and> (runArchitect env (cfg ARCHITECT) keys p ctx (onProgress st ARCHITECT) = (st', Inr arch)
      \<and> runCoder env (cfg CODER) keys p arch ctx (onProgress st' CODER) = (st'', Inl e) \<longrightarrow>
      completeMigration env p ctx cfg keys st = (onProgress st'' ERROR, Inl e)
      \<and> progress (fst (completeMigration env p ctx cfg keys st))
          = progress st @ [ARCHITECT, CODER, ERROR]
      \<and> logs (fst (completeMigration env p ctx cfg keys st)) = logs st''
      \<and> errorEntries (logs (fst (completeMigration env p ctx cfg keys st)))
          = errorEntries (logs st))
   \<and> (runArchitect env (cfg ARCHITECT) keys p ctx (onProgress st ARCHITECT) = (st', Inr arch)
      \<and> runCoder env (cfg CODER) keys p arch ctx (onProgress st' CODER) = (st'', Inr files)
      \<and> runAuditor env (cfg AUDITOR) keys ctx files (onProgress st'' AUDITOR) = (st''', Inl e) \<longrightarrow>
      completeMigration env p ctx cfg keys st = (onProgress st''' ERROR, Inl e)
      \<and> progress (fst (completeMigration env p ctx cfg keys st))
          = progress st @ [ARCHITECT, CODER, AUDITOR, ERROR]
      \<and> logs (fst (completeMigration env p ctx cfg keys st)) = logs st'''
      \<and> errorEntries (logs (fst (completeMigration env p ctx cfg keys st)))
          = errorEntries (logs st))
   \<and> (snd (startAnalysis env code cfg keys st) = Inl e \<longrightarrow>
      progress (fst (startAnalysis env code cfg keys st)) = progress st @ [ANALYST, ERROR]
      \<and> length (errorEntries (logs (fst (startAnalysis env code cfg keys st))))
          = length (errorEntries (logs st)) + (if e = analystInvalidJson then 1 else 0))
   \<and> (snd (completeMigration env p ctx cfg keys st) = Inl e \<longrightarrow>
      last (progress (fst (completeMigration env p ctx cfg keys st))) = ERROR
      \<and> errorEntries (logs (fst (completeMigration env p ctx cfg keys st)))
          = errorEntries (logs st))"
proof -
  have analyst:
    "runAnalyst env (cfg ANALYST) keys code (onProgress st ANALYST) = (st', Inl e) \<longrightarrow>
      startAnalysis env code cfg keys st = (onProgress st' ERROR, Inl e)
      \<and> progress (fst (startAnalysis env code cfg keys st)) = progress st @ [ANALYST, ERROR]
      \<and> logs (fst (startAnalysis env code cfg keys st)) = logs st'
      \<and> length (errorEntries (logs (fst (startAnalysis env code cfg keys st))))
          = length (errorEntries (logs st)) + (if e = analystInvalidJson then 1 else 0)"
    using startAnalysis_error_at_analyst [of env cfg keys code st st' e] by blast
  have architect:
    "runArchitect env (cfg ARCHITECT) keys p ctx (onProgress st ARCHITECT) = (st', Inl e) \<longrightarrow>
      completeMigration env p ctx cfg keys st = (onProgress st' ERROR, Inl e)
      \<and> progress (fst (completeMigration env p ctx cfg keys st))
          = progress st @ [ARCHITECT, ERROR]
      \<and> logs (fst (completeMigration env p ctx cfg keys st)) = logs st'
      \<and> errorEntries (logs (fst (completeMigration env p ctx cfg keys st)))
          = errorEntries (logs st)"
    using completeMigration_error_at_architect [of env cfg keys p ctx st st' e] by blast
  have coder:
    "runArchitect env (cfg ARCHITECT) keys p ctx (onProgress st ARCHITECT) = (st', Inr arch)
      \<and> runCoder env (cfg CODER) keys p arch ctx (onProgress st' CODER) = (st'', Inl e) \<longrightarrow>
      completeMigration env p ctx cfg keys st = (onProgress st'' ERROR, Inl e)
      \<and> progress (fst (completeMigration env p ctx cfg keys st))
          = progress st @ [ARCHITECT, CODER, ERROR]
      \<and> logs (fst (completeMigration env p ctx cfg keys st)) = logs st''
      \<and> errorEntries (logs (fst (completeMigration env p ctx cfg keys st)))
          = errorEntries (logs st)"
    using completeMigration_error_at_coder [of env cfg keys p ctx st st' arch st'' e] by blast
  have auditor:
    "runArchitect env (cfg ARCHITECT) keys p ctx (onProgress st ARCHITECT) = (st', Inr arch)
      \<and> runCoder env (cfg CODER) keys p arch ctx (onProgress st' CODER) = (st'', Inr files)
      \<and> runAuditor env (cfg AUDITOR) keys ctx files (onProgress st'' AUDITOR) = (st''', Inl e) \<longrightarrow>
      completeMigration env p ctx cfg keys st = (onProgress st''' ERROR, Inl e)
      \<and> progress (fst (completeMigration env p ctx cfg keys st))
          = progress st @ [ARCHITECT, CODER, AUDITOR, ERROR]
      \<and> logs (fst (completeMigration env p ctx cfg keys st)) = logs st'''
      \<and> errorEntries (logs (fst (completeMigration env p ctx cfg keys st)))
          = errorEntries (logs st)"
    using completeMigration_error_at_auditor [of env cfg keys p ctx st st' arch st'' files st''' e]
    by blast
  have analysis:
    "snd (startAnalysis env code cfg keys st) = Inl e \<longrightarrow>
      progress (fst (startAnalysis env code cfg keys st)) = progress st @ [ANALYST, ERROR]
      \<and> length (errorEntries (logs (fst (startAnalysis env code cfg keys st))))
          = length (errorEntries (logs st)) + (if e = analystInvalidJson then 1 else 0)"
    using startAnalysis_failure [of env code cfg keys st e] by blast
  have migration:
    "snd (completeMigration env p ctx cfg keys st) = Inl e \<longrightarrow>
      last (progress (fst (completeMigration env p ctx cfg keys st))) = ERROR
      \<and> errorEntries (logs (fst (completeMigration env p ctx cfg keys st)))
          = errorEntries (logs st)"
    using completeMigration_failure [of env p ctx cfg keys st e] by blast
  from analyst architect coder auditor analysis migration show ?thesis
    by (intro conjI)
qed

text \<open>Four runs, one for each stage that fails: the backend is unreachable (Analyst,
  Architect), it knows no model for the Coder, it knows no model for the Auditor.\<close>

theorem stage_failure_reported_and_reraised_witness:
  "snd (startAnalysis (samplePlatform [] offlineBackend) ''<?php'' sampleConfig sampleKeys emptyRun)
     = Inl (Error ''Google AI Error (analyst): Failed to fetch'')
   \<and> progress (fst (startAnalysis (samplePlatform [] offlineBackend) ''<?php'' sampleConfig
                      sampleKeys emptyRun)) = [ANALYST, ERROR]
   \<and> length (errorEntries (logs (fst (startAnalysis (samplePlatform [] offlineBackend) ''<?php''
                      sampleConfig sampleKeys emptyRun)))) = 0
   \<and> snd (completeMigration (samplePlatform [] offlineBackend) (JObject [])
             [(''main.legacy'', ''<?php'')] sampleConfig sampleKeys emptyRun)
     = Inl (Error ''Google AI Error (architect): Failed to fetch'')
   \<and> progress (fst (completeMigration (samplePlatform [] offlineBackend) (JObject [])
             [(''main.legacy'', ''<?php'')] sampleConfig sampleKeys emptyRun)) = [ARCHITECT, ERROR]
   \<and> last (progress (fst (completeMigration (samplePlatform [] offlineBackend) (JObject [])
             [(''main.legacy'', ''<?php'')] sampleConfig sampleKeys emptyRun))) = ERROR
   \<and> errorEntries (logs (fst (completeMigration (samplePlatform [] offlineBackend) (JObject [])
             [(''main.legacy'', ''<?php'')] sampleConfig sampleKeys emptyRun))) = []
   \<and> snd (completeMigration architectOnly (JObject []) [(''main.legacy'', ''<?php'')]
             sampleConfig sampleKeys emptyRun)
     = Inl (Error ''Google AI Error (coder): model not found'')
   \<and> progress (fst (completeMigration architectOnly (JObject []) [(''main.legacy'', ''<?php'')]
             sampleConfig sampleKeys emptyRun)) = [ARCHITECT, CODER, ERROR]
   \<and> errorEntries (logs (fst (completeMigration architectOnly (JObject [])
             [(''main.legacy'', ''<?php'')] sampleConfig sampleKeys emptyRun))) = []
   \<and> snd (completeMigration noAuditor (JObject []) [(''main.legacy'', ''<?php'')]
             sampleConfig sampleKeys emptyRun)
     = Inl (Error ''Google AI Error (auditor): model not found'')
   \<and> progress (fst (completeMigration noAuditor (JObject []) [(''main.legacy'', ''<?php'')]
             sampleConfig sampleKeys emptyRun)) = [ARCHITECT, CODER, AUDITOR, ERROR]
   \<and> errorEntries (logs (fst (completeMigration noAuditor (JObject [])
             [(''main.legacy'', ''<?php'')] sampleConfig sampleKeys emptyRun))) = []"
proof -
  let ?off = "samplePlatform [] offlineBackend"
  let ?ctx = "[(''main.legacy'', ''<?php'')]"
  let ?files = "[(''a.py'', JString ''x''), (''b.py'', JString ''y''), (''c.py'', JString ''z'')]"
  let ?eA = "Error ''Google AI Error (analyst): Failed to fetch''"
  let ?eB = "Error ''Google AI Error (architect): Failed to fetch''"
  let ?eC = "Error ''Google AI Error (coder): model not found''"
  let ?eD = "Error ''Google AI Error (auditor): model not found''"
  have other: "?eA \<noteq> analystInvalidJson"
    by (simp add: analystInvalidJson_def)

  txt \<open>the Analyst fails\<close>
  let ?a0 = "runAnalyst ?off (sampleConfig ANALYST) sampleKeys ''<?php'' (onProgress emptyRun ANALYST)"
  have "snd ?a0 = Inl ?eA"
    by code_simp
  then have a0: "?a0 = (fst ?a0, Inl ?eA)"
    by (simp add: prod_eq_iff)
  note t0 = stage_failure_reported_and_reraised
    [where env = ?off and code = "''<?php''" and cfg = sampleConfig and keys = sampleKeys
       and st = emptyRun and st' = "fst ?a0" and e = ?eA and p = "JObject []" and ctx = ?ctx
       and arch = "[]" and st'' = emptyRun and files = "[]" and st''' = emptyRun]
  from t0 a0
  have r0: "startAnalysis ?off ''<?php'' sampleConfig sampleKeys emptyRun
              = (onProgress (fst ?a0) ERROR, Inl ?eA)"
    and p0: "progress (fst (startAnalysis ?off ''<?php'' sampleConfig sampleKeys emptyRun))
              = progress emptyRun @ [ANALYST, ERROR]"
    by blast+
  from r0 have s0: "snd (startAnalysis ?off ''<?php'' sampleConfig sampleKeys emptyRun) = Inl ?eA"
    by simp
  from t0 s0
  have "length (errorEntries (logs (fst (startAnalysis ?off ''<?php'' sampleConfig sampleKeys
                                            emptyRun))))
      = length (errorEntries (logs emptyRun)) + (if ?eA = analystInvalidJson then 1 else 0)"
    by blast
  with other
  have l0: "length (errorEntries (logs (fst (startAnalysis ?off ''<?php'' sampleConfig sampleKeys
                                               emptyRun)))) = 0"
    by (simp add: emptyRun_def)

  txt \<open>the Architect fails\<close>
  let ?a1 = "runArchitect ?off (sampleConfig ARCHITECT) sampleKeys (JObject []) ?ctx
               (onProgress emptyRun ARCHITECT)"
  have "snd ?a1 = Inl ?eB"
    by code_simp
  then have a1: "?a1 = (fst ?a1, Inl ?eB)"
    by (simp add: prod_eq_iff)
  note t1 = stage_failure_reported_and_reraised
    [where env = ?off and code = "''<?php''" and cfg = sampleConfig and keys = sampleKeys
       and st = emptyRun and st' = "fst ?a1" and e = ?eB and p = "JObject []" and ctx = ?ctx
       and arch = "[]" and st'' = emptyRun and files = "[]" and st''' = emptyRun]
  from t1 a1
  have r1: "completeMigration ?off (JObject []) ?ctx sampleConfig sampleKeys emptyRun
              = (onProgress (fst ?a1) ERROR, Inl ?eB)"
    and p1: "progress (fst (completeMigration ?off (JObject []) ?ctx sampleConfig sampleKeys
                              emptyRun)) = progress emptyRun @ [ARCHITECT, ERROR]"
    and l1: "errorEntries (logs (fst (completeMigration ?off (JObject []) ?ctx sampleConfig
                              sampleKeys emptyRun))) = errorEntries (logs emptyRun)"
    by blast+
  from r1 have s1: "snd (completeMigration ?off (JObject []) ?ctx sampleConfig sampleKeys emptyRun)
      = Inl ?eB"
    by simp
  from t1 s1
  have q1: "last (progress (fst (completeMigration ?off (JObject []) ?ctx sampleConfig sampleKeys
                                   emptyRun))) = ERROR"
    by blast

  txt \<open>the Coder fails\<close>
  let ?a2 = "runArchitect architectOnly (sampleConfig ARCHITECT) sampleKeys (JObject []) ?ctx
               (onProgress emptyRun ARCHITECT)"
  let ?c2 = "runCoder architectOnly (sampleConfig CODER) sampleKeys (JObject []) ''design'' ?ctx
               (onProgress (fst ?a2) CODER)"
  have "snd ?a2 = Inr ''design''"
    by code_simp
  then have a2: "?a2 = (fst ?a2, Inr ''design'')"
    by (simp add: prod_eq_iff)
  have "snd ?c2 = Inl ?eC"
    by code_simp
  then have c2: "?c2 = (fst ?c2, Inl ?eC)"
    by (simp add: prod_eq_iff)
  note t2 = stage_failure_reported_and_reraised
    [where env = architectOnly and code = "''<?php''" and cfg = sampleConfig
       and keys = sampleKeys and st = emptyRun and st' = "fst ?a2" and e = ?eC
       and p = "JObject []" and ctx = ?ctx and arch = "''design''" and st'' = "fst ?c2"
       and files = "[]" and st''' = emptyRun]
  from t2 a2 c2
  have r2: "completeMigration architectOnly (JObject []) ?ctx sampleConfig sampleKeys emptyRun
              = (onProgress (fst ?c2) ERROR, Inl ?eC)"
    and p2: "progress (fst (completeMigration architectOnly (JObject []) ?ctx sampleConfig
                              sampleKeys emptyRun)) = progress emptyRun @ [ARCHITECT, CODER, ERROR]"
    and l2: "errorEntries (logs (fst (completeMigration architectOnly (JObject []) ?ctx
                              sampleConfig sampleKeys emptyRun))) = errorEntries (logs emptyRun)"
    by blast+
  from r2 have s2: "snd (completeMigration architectOnly (JObject []) ?ctx sampleConfig sampleKeys
                          emptyRun) = Inl ?eC"
    by simp

  txt \<open>the Auditor fails\<close>
  let ?a3 = "runArchitect noAuditor (sampleConfig ARCHITECT) sampleKeys (JObject []) ?ctx
               (onProgress emptyRun ARCHITECT)"
  let ?c3 = "runCoder noAuditor (sampleConfig CODER) sampleKeys (JObject []) ''design'' ?ctx
               (onProgress (fst ?a3) CODER)"
  let ?d3 = "runAuditor noAuditor (sampleConfig AUDITOR) sampleKeys ?ctx ?files
               (onProgress (fst ?c3) AUDITOR)"
  have "snd ?a3 = Inr ''design''"
    by code_simp
  then have a3: "?a3 = (fst ?a3, Inr ''design'')"
    by (simp add: prod_eq_iff)
  have "snd ?c3 = Inr ?files"
    by code_simp
  then have c3: "?c3 = (fst ?c3, Inr ?files)"
    by (simp add: prod_eq_iff)
  have "snd ?d3 = Inl ?eD"
    by code_simp
  then have d3: "?d3 = (fst ?d3, Inl ?eD)"
    by (simp add: prod_eq_iff)
  note t3 = stage_failure_reported_and_reraised
    [where env = noAuditor and code = "''<?php''" and cfg = sampleConfig
       and keys = sampleKeys and st = emptyRun and st' = "fst ?a3" and e = ?eD
       and p = "JObject []" and ctx = ?ctx and arch = "''design''" and st'' = "fst ?c3"
       and files = ?files and st''' = "fst ?d3"]
  from t3 a3 c3 d3
  have r3: "completeMigration noAuditor (JObject []) ?ctx sampleConfig sampleKeys emptyRun
              = (onProgress (fst ?d3) ERROR, Inl ?eD)"
    and p3: "progress (fst (completeMigration noAuditor (JObject []) ?ctx sampleConfig
                              sampleKeys emptyRun))
              = progress emptyRun @ [ARCHITECT, CODER, AUDITOR, ERROR]"
    and l3: "errorEntries (logs (fst (completeMigration noAuditor (JObject []) ?ctx
                              sampleConfig sampleKeys emptyRun))) = errorEntries (logs emptyRun)"
    by blast+
  from r3 have s3: "snd (completeMigration noAuditor (JObject []) ?ctx sampleConfig sampleKeys
                          emptyRun) = Inl ?eD"
    by simp

  have empty: "progress emptyRun = []" "errorEntries (logs emptyRun) = []"
    by (simp_all add: emptyRun_def)
  from s0 p0 l0 s1 p1 q1 l1 s2 p2 l2 s3 p3 l3 show ?thesis
    unfolding empty append_Nil by (intro conjI)
qed

text \<open>
  Claim C1 as stated fails: the provider is unreachable during the Analyst stage, the error
  is returned and \<open>ERROR\<close> is reported, but the log holds the prompt entry only.
\<close>

theorem transport_failure_leaves_no_error_entry:
  "snd (startAnalysis (samplePlatform [] offlineBackend) ''<?php'' sampleConfig sampleKeys emptyRun)
     = Inl (Error ''Google AI Error (analyst): Failed to fetch'')
   \<and> map entry_type (logs (fst (startAnalysis (samplePlatform [] offlineBackend) ''<?php''
                                sampleConfig sampleKeys emptyRun))) = [log_prompt]
   \<and> errorEntries (logs (fst (startAnalysis (samplePlatform [] offlineBackend) ''<?php''
                                sampleConfig sampleKeys emptyRun))) = []"
  by code_simp

section \<open>Pause and resume\<close>

lemma logs_runArchitect:
  "prefix (logs st @ [createLog ARCHITECT log_prompt
             (usingProvider sel @ PROMPTS_ARCHITECT env p (contextStr ctx)) None])
          (logs (fst (runArchitect env sel keys p ctx st)))"
  by (simp add: runArchitect_def Let_def split: sum.splits)

lemma logs_strictExtraction:
  "prefix (logs st) (logs (fst (strictExtraction env t st)))"
  by (simp add: strictExtraction_def Let_def
           split: sum.splits option.splits json.splits prod.splits)

lemma logs_extractFiles:
  "prefix (logs st) (logs (fst (extractFiles env t st)))"
proof -
  obtain st1 fm ok where s: "strictExtraction env t st = (st1, fm, ok)"
    by (cases "strictExtraction env t st") auto
  then have "prefix (logs st) (logs st1)"
    using logs_strictExtraction [of st env t] by simp
  with s show ?thesis by (simp add: extractFiles_def Let_def)
qed

lemma logs_runCoder:
  "prefix (logs st) (logs (fst (runCoder env sel keys p arch ctx st)))"
proof -
  have "prefix (logs st) (logs (fst (extractFiles env t s)))" if "prefix (logs st) (logs s)" for t s
    using that logs_extractFiles [of s env t] by (rule prefix_order.trans)
  then show ?thesis
    by (simp add: runCoder_def Let_def split: sum.splits)
qed

lemma logs_runAuditor:
  "prefix (logs st) (logs (fst (runAuditor env sel keys ctx files st)))"
  by (simp add: runAuditor_def Let_def split: sum.splits)

lemma logs_completeMigration:
  "prefix (logs st @ [createLog ARCHITECT log_prompt
             (usingProvider (cfg ARCHITECT) @ PROMPTS_ARCHITECT env p (contextStr ctx)) None])
          (logs (fst (completeMigration env p ctx cfg keys st)))"
proof -
  let ?first = "logs st @ [createLog ARCHITECT log_prompt
         (usingProvider (cfg ARCHITECT) @ PROMPTS_ARCHITECT env p (contextStr ctx)) None]"
  have la: "runArchitect env (cfg ARCHITECT) keys p ctx (onProgress st ARCHITECT) = (st1, r)
      \<Longrightarrow> prefix ?first (logs st1)" for st1 r
    using logs_runArchitect [of "onProgress st ARCHITECT" "cfg ARCHITECT" env p ctx keys] by simp
  have lc: "runCoder env (cfg CODER) keys p a ctx (onProgress st1 CODER) = (st2, r)
      \<Longrightarrow> prefix (logs st1) (logs st2)" for st1 st2 a r
    using logs_runCoder [of "onProgress st1 CODER" env "cfg CODER" keys p a ctx] by simp
  have ld: "runAuditor env (cfg AUDITOR) keys ctx f (onProgress st2 AUDITOR) = (st3, r)
      \<Longrightarrow> prefix (logs st2) (logs st3)" for st2 st3 f r
    using logs_runAuditor [of "onProgress st2 AUDITOR" env "cfg AUDITOR" keys ctx f] by simp
  show ?thesis
  proof (cases rule: completeMigration_cases [of env cfg keys p ctx st])
    case (architect st1 e)
    with la [OF architect(1)] show ?thesis by simp
  next
    case (coder st1 a st2 e)
    with prefix_order.trans [OF la [OF coder(1)] lc [OF coder(2)]] show ?thesis by simp
  next
    case (auditor st1 a st2 files st3 e)
    with prefix_order.trans [OF prefix_order.trans [OF la [OF auditor(1)] lc [OF auditor(2)]]
           ld [OF auditor(3)]]
    show ?thesis by simp
  next
    case (reading st1 a st2 files st3 auditResult name e)
    with prefix_order.trans [OF prefix_order.trans [OF la [OF reading(1)] lc [OF reading(2)]]
           ld [OF reading(3)]]
    show ?thesis by simp
  next
    case (complete st1 a st2 files st3 auditResult res)
    with prefix_order.trans [OF prefix_order.trans [OF la [OF complete(1)] lc [OF complete(2)]]
           ld [OF complete(3)]]
    show ?thesis by simp
  qed
qed

lemma prefix_snoc_nth: "prefix (xs @ [e]) zs \<Longrightarrow> zs ! length xs = e"
  by (auto simp: prefix_def)

lemma entries_single [simp]: "entries [kv] = [kv]"
  by (cases kv) (simp add: entries_def)

lemma fullContext_single:
  "fullContext code [(dep, c)]
     = (if dep = ''main.legacy'' then [(''main.legacy'', c)]
        else [(''main.legacy'', code), (dep, c)])"
  by (auto simp: fullContext_def)

lemma handleStartAnalysis_waiting:
  assumes nonblank: "trim (inputCode app) \<noteq> []"
      and config: "app_modelConfig app = Some cfg"
      and analyst: "snd (runAnalyst env (cfg ANALYST) (app_apiKeys app) (inputCode app) emptyRun)
                     = Inr (JObject kvs)"
      and files: "map_of kvs ''required_files'' = Some (JArray files)" "files \<noteq> []"
  shows "\<exists>st1. handleStartAnalysis env app
           = app\<lparr>run := onProgress st1 WAITING_FOR_USER, app_error := None, app_result := None,
                 partialPlan := Some (JObject kvs), showDependencyModal := True\<rparr>
         \<and> progress st1 = progress (run app) @ [ANALYST, ANALYST]"
proof -
  let ?st0 = "(onProgress (run app) ANALYST)\<lparr>logs := []\<rparr>"
  let ?s = "startAnalysis env (inputCode app) cfg (app_apiKeys app) ?st0"
  note nf = needsFilesOf_array [OF files(1), of env]
  note sa = startAnalysis_plan [where cfg = cfg, OF analyst nf]
  obtain st1 where s: "?s = (st1, Inr (JObject kvs, Some (JBool (files \<noteq> []))))"
    using sa(1) [of ?st0] by (cases ?s) auto
  have p1: "progress st1 = progress (run app) @ [ANALYST, ANALYST]"
    using sa(2) [of ?st0] s by (simp add: onProgress_def)
  have "handleStartAnalysis env app
           = app\<lparr>run := onProgress st1 WAITING_FOR_USER, app_error := None, app_result := None,
                 partialPlan := Some (JObject kvs), showDependencyModal := True\<rparr>"
    using nonblank config s files(2) by (simp add: handleStartAnalysis_def Let_def truthyVal_def)
  with p1 show ?thesis by blast
qed

text \<open>
  Claim C3, as amended. Let the Plan name exactly one required file, and let its name differ
  from \<open>main.legacy\<close>. Then the application stops at \<open>WAITING_FOR_USER\<close> with the Plan kept
  and the dependency dialog open. Submitting the file reports \<open>ARCHITECT\<close> next, and the
  first entry logged is the Architect's prompt, built from the kept Plan and from the File
  Map that holds \<open>main.legacy\<close> with the input code and the supplied file with its content.
  A result, when the run completes, carries the same Plan.
\<close>

theorem resume_with_supplied_file:
  assumes nonblank: "trim (inputCode app) \<noteq> []"
      and config: "app_modelConfig app = Some cfg"
      and analyst: "snd (runAnalyst env (cfg ANALYST) (app_apiKeys app) (inputCode app) emptyRun)
                     = Inr (JObject kvs)"
      and files: "map_of kvs ''required_files'' = Some (JArray [JString dep])"
      and other: "dep \<noteq> ''main.legacy''"
  shows "progress (run (handleStartAnalysis env app))
           = progress (run app) @ [ANALYST, ANALYST, WAITING_FOR_USER]
     \<and> partialPlan (handleStartAnalysis env app) = Some (JObject kvs)
     \<and> showDependencyModal (handleStartAnalysis env app)
     \<and> fullContext (inputCode app) [(dep, supplied)]
         = [(''main.legacy'', inputCode app), (dep, supplied)]
     \<and> (\<exists>rest. progress (run (handleDependencySubmit env [(dep, supplied)]
                                  (handleStartAnalysis env app)))
                  = progress (run (handleStartAnalysis env app)) @ ARCHITECT # rest)
     \<and> logs (run (handleDependencySubmit env [(dep, supplied)] (handleStartAnalysis env app)))
           ! length (logs (run (handleStartAnalysis env app)))
         = createLog ARCHITECT log_prompt
             (usingProvider (cfg ARCHITECT)
              @ PROMPTS_ARCHITECT env (JObject kvs)
                  (contextStr [(''main.legacy'', inputCode app), (dep, supplied)])) None
     \<and> (\<forall>r. app_result (handleDependencySubmit env [(dep, supplied)]
                            (handleStartAnalysis env app)) = Some r
            \<longrightarrow> plan r = JObject kvs)"
proof -
  let ?app1 = "handleStartAnalysis env app"
  let ?ctx = "[(''main.legacy'', inputCode app), (dep, supplied)]"
  obtain st1 where app1: "?app1
           = app\<lparr>run := onProgress st1 WAITING_FOR_USER, app_error := None, app_result := None,
                 partialPlan := Some (JObject kvs), showDependencyModal := True\<rparr>"
      and p1: "progress st1 = progress (run app) @ [ANALYST, ANALYST]"
    using handleStartAnalysis_waiting [OF nonblank config analyst files] by auto
  have fc: "fullContext (inputCode app) [(dep, supplied)] = ?ctx"
    using other by (simp add: fullContext_single)
  let ?cm = "completeMigration env (JObject kvs) ?ctx cfg (app_apiKeys app) (run ?app1)"
  obtain st2 res where cm: "?cm = (st2, res)" by (cases ?cm) auto
  obtain rest where pr: "progress st2 = progress (run ?app1) @ ARCHITECT # rest"
    using completeMigration_progress [of env "JObject kvs" ?ctx cfg "app_apiKeys app" "run ?app1"] cm
    by auto
  have lg: "logs st2 ! length (logs (run ?app1))
      = createLog ARCHITECT log_prompt
             (usingProvider (cfg ARCHITECT)
              @ PROMPTS_ARCHITECT env (JObject kvs) (contextStr ?ctx)) None"
    using prefix_snoc_nth [OF logs_completeMigration
            [of "run ?app1" cfg env "JObject kvs" ?ctx "app_apiKeys app"]] cm
    by simp
  have pl: "res = Inr r \<Longrightarrow> plan r = JObject kvs" for r
    using cm by (cases rule: completeMigration_cases
                   [of env cfg "app_apiKeys app" "JObject kvs" ?ctx "run ?app1"]) auto
  have sub: "run (handleDependencySubmit env [(dep, supplied)] ?app1)
               = (case res of Inl e \<Rightarrow> onProgress st2 ERROR | Inr r \<Rightarrow> st2)
             \<and> app_result (handleDependencySubmit env [(dep, supplied)] ?app1)
               = (case res of Inl e \<Rightarrow> None | Inr r \<Rightarrow> Some r)"
    using cm config fc
    by (simp add: app1 handleDependencySubmit_def Let_def split: sum.splits)
  have a: "progress (run ?app1) = progress (run app) @ [ANALYST, ANALYST, WAITING_FOR_USER]"
    using p1 by (simp add: app1)
  have b: "\<exists>rest. progress (run (handleDependencySubmit env [(dep, supplied)] ?app1))
                  = progress (run ?app1) @ ARCHITECT # rest"
    using sub pr by (cases res) auto
  have c: "logs (run (handleDependencySubmit env [(dep, supplied)] ?app1))
           ! length (logs (run ?app1))
         = createLog ARCHITECT log_prompt
             (usingProvider (cfg ARCHITECT)
              @ PROMPTS_ARCHITECT env (JObject kvs) (contextStr ?ctx)) None"
    using sub lg by (cases res) auto
  have d: "\<forall>r. app_result (handleDependencySubmit env [(dep, supplied)] ?app1) = Some r
            \<longrightarrow> plan r = JObject kvs"
    using sub pl by (cases res) auto
  have e: "partialPlan ?app1 = Some (JObject kvs) \<and> showDependencyModal ?app1"
    by (simp add: app1)
  from a b c d e fc show ?thesis by blast
qed

text \<open>The Plan asks for \<open>a.php\<close>.\<close>

theorem resume_with_supplied_file_witness:
  "trim (inputCode (sampleApp ''<?php'')) \<noteq> []
   \<and> app_modelConfig (sampleApp ''<?php'') = Some sampleConfig
   \<and> snd (runAnalyst (analystAnswers onePlanText onePlan) (sampleConfig ANALYST)
             (app_apiKeys (sampleApp ''<?php'')) (inputCode (sampleApp ''<?php'')) emptyRun)
       = Inr (JObject [(''required_files'', JArray [JString ''a.php''])])
   \<and> map_of [(''required_files'', JArray [JString ''a.php''])] ''required_files''
       = Some (JArray [JString ''a.php''])
   \<and> ''a.php'' \<noteq> ''main.legacy''
   \<and> progress (run (handleStartAnalysis (analystAnswers onePlanText onePlan) (sampleApp ''<?php'')))
       = [ANALYST, ANALYST, WAITING_FOR_USER]
   \<and> partialPlan (handleStartAnalysis (analystAnswers onePlanText onePlan) (sampleApp ''<?php''))
       = Some (JObject [(''required_files'', JArray [JString ''a.php''])])
   \<and> fullContext ''<?php'' [(''a.php'', ''<?php dep'')]
       = [(''main.legacy'', ''<?php''), (''a.php'', ''<?php dep'')]"
proof -
  have h1: "trim (inputCode (sampleApp ''<?php'')) \<noteq> []"
    by code_simp
  have h2: "app_modelConfig (sampleApp ''<?php'') = Some sampleConfig"
    by (simp add: sampleApp_def)
  have h3: "snd (runAnalyst (analystAnswers onePlanText onePlan) (sampleConfig ANALYST)
             (app_apiKeys (sampleApp ''<?php'')) (inputCode (sampleApp ''<?php'')) emptyRun)
       = Inr (JObject [(''required_files'', JArray [JString ''a.php''])])"
    by code_simp
  have h4: "map_of [(''required_files'', JArray [JString ''a.php''])] ''required_files''
       = Some (JArray [JString ''a.php''])"
    by simp
  have h5: "''a.php'' \<noteq> ''main.legacy''"
    by simp
  have start: "progress (run (sampleApp ''<?php'')) = []" "inputCode (sampleApp ''<?php'') = ''<?php''"
    by (simp_all add: sampleApp_def emptyRun_def)
  from resume_with_supplied_file [OF h1 h2 h3 h4 h5, of "''<?php dep''"] start
  have "progress (run (handleStartAnalysis (analystAnswers onePlanText onePlan)
                         (sampleApp ''<?php'')))
       = [ANALYST, ANALYST, WAITING_FOR_USER]
     \<and> partialPlan (handleStartAnalysis (analystAnswers onePlanText onePlan) (sampleApp ''<?php''))
       = Some (JObject [(''required_files'', JArray [JString ''a.php''])])
     \<and> fullContext ''<?php'' [(''a.php'', ''<?php dep'')]
       = [(''main.legacy'', ''<?php''), (''a.php'', ''<?php dep'')]"
    by simp
  with h1 h2 h3 h4 h5 show ?thesis by simp
qed

text \<open>
  Claim C3 as stated fails: the Plan asks for one file, named \<open>main.legacy\<close>. The
  application waits; when the file is supplied, it replaces the primary input in the File
  Map, and the Architect's prompt (the third entry of the log) is built from the supplied
  content alone.
\<close>

theorem supplied_main_legacy_replaces_input:
  "progress (run (handleStartAnalysis (analystAnswers collidingPlanText collidingPlan)
                    (sampleApp ''<?php main'')))
     = [ANALYST, ANALYST, WAITING_FOR_USER]
   \<and> fullContext (inputCode (handleStartAnalysis (analystAnswers collidingPlanText collidingPlan)
                                 (sampleApp ''<?php main'')))
        [(''main.legacy'', ''<?php dep'')]
     = [(''main.legacy'', ''<?php dep'')]
   \<and> content (logs (run (handleDependencySubmit (analystAnswers collidingPlanText collidingPlan)
                           [(''main.legacy'', ''<?php dep'')]
                           (handleStartAnalysis (analystAnswers collidingPlanText collidingPlan)
                              (sampleApp ''<?php main'')))) ! 2)
     = usingProvider (sampleConfig ARCHITECT)
       @ ''Design: '' @ contextStr [(''main.legacy'', ''<?php dep'')]"
  by code_simp

section \<open>Properties of the Coder stage\<close>

lemma collectFiles_characterised:
  "collectFiles env fs m
     = (foldl (storeEntry env) m (filter validEntry (takeWhile notNull fs)),
        if JNull \<in> set fs then Some (TypeError (nullPropertyMessage env ''filename'')) else None)"
proof (induction fs arbitrary: m)
  case Nil
  show ?case by simp
next
  case (Cons f fs)
  show ?case
  proof (cases f)
    case JNull
    then show ?thesis by (simp add: getProp_def notNull_def)
  next
    case (JObject kvs)
    then show ?thesis
      using Cons.IH
      by (auto simp: getProp_def notNull_def validEntry_def hasTruthy_def truthyVal_def
                     storeEntry_def
               split: option.splits)
  qed (simp_all add: Cons.IH getProp_def notNull_def validEntry_def hasTruthy_def)
qed

lemma takeWhile_notNull: "JNull \<notin> set fs \<Longrightarrow> takeWhile notNull fs = fs"
  by (induction fs) (auto simp: notNull_def)

lemma collectFiles_filter:
  assumes "JNull \<notin> set fs"
  shows "collectFiles env fs m = collectFiles env (filter validEntry fs) m"
proof -
  have "JNull \<notin> set (filter validEntry fs)" using assms by simp
  then show ?thesis
    using assms by (simp add: collectFiles_characterised takeWhile_notNull)
qed

lemma strictExtraction_files:
  assumes "JSON_parse env (cleanLlmOutput answer) = Inr (JObject kvs)"
      and "map_of kvs ''files'' = Some (JArray fs)"
      and "JNull \<notin> set fs"
  shows "strictExtraction env answer st = (st, foldl (storeEntry env) [] (filter validEntry fs), True)"
  using assms
  by (simp add: strictExtraction_def Let_def getProp_def collectFiles_characterised
        takeWhile_notNull)

lemma invalid_entries:
  "map_of kvs ''content'' = Some (JString []) \<or> map_of kvs ''content'' = None
   \<or> map_of kvs ''filename'' = None \<or> map_of kvs ''filename'' = Some (JString [])
   \<Longrightarrow> \<not> validEntry (JObject kvs)"
  by (auto simp: validEntry_def hasTruthy_def truthyVal_def)

text \<open>
  Claim C9. Strategy 1 stores exactly the entries that have a truthy \<open>filename\<close> and a
  truthy \<open>content\<close>, in their order, up to the first \<open>null\<close> entry (reading its
  \<open>filename\<close> raises). With no \<open>null\<close> entry the other entries can be deleted from the
  array without any effect; nothing is logged for them and \<open>jsonSuccess\<close> is set. An entry
  whose \<open>content\<close> is the empty string or missing, or whose \<open>filename\<close> is missing or
  empty, is none of the stored ones.
\<close>

theorem strict_extraction_omits_invalid_entries:
  "collectFiles env fs m
     = (foldl (storeEntry env) m (filter validEntry (takeWhile notNull fs)),
        if JNull \<in> set fs then Some (TypeError (nullPropertyMessage env ''filename'')) else None)
   \<and> (JNull \<notin> set fs \<longrightarrow> collectFiles env fs m = collectFiles env (filter validEntry fs) m)
   \<and> (JSON_parse env (cleanLlmOutput answer) = Inr (JObject kvs)
        \<longrightarrow> map_of kvs ''files'' = Some (JArray fs) \<longrightarrow> JNull \<notin> set fs
        \<longrightarrow> strictExtraction env answer st
              = (st, foldl (storeEntry env) [] (filter validEntry fs), True))
   \<and> (\<forall>e. map_of e ''content'' = Some (JString []) \<or> map_of e ''content'' = None
            \<or> map_of e ''filename'' = None \<or> map_of e ''filename'' = Some (JString [])
          \<longrightarrow> \<not> validEntry (JObject e))"
  using collectFiles_characterised [of env fs m] collectFiles_filter [of fs env m]
    strictExtraction_files [of env answer kvs fs st] invalid_entries
  by blast


text \<open>Of seven entries only the first and the last have both a name and a content.\<close>

theorem strict_extraction_omits_invalid_entries_witness:
  "JNull \<notin> set mixedEntries
   \<and> filter validEntry mixedEntries
       = [JObject (fileEntry ''a.py'' ''x''), JObject (fileEntry ''c.py'' ''z'')]
   \<and> collectFiles (samplePlatform [] offlineBackend) mixedEntries []
       = ([(''a.py'', JString ''x''), (''c.py'', JString ''z'')], None)"
proof -
  have h1: "JNull \<notin> set mixedEntries"
    by (simp add: mixedEntries_def)
  have h2: "filter validEntry mixedEntries
       = [JObject (fileEntry ''a.py'' ''x''), JObject (fileEntry ''c.py'' ''z'')]"
    by code_simp
  have h3: "collectFiles (samplePlatform [] offlineBackend)
              [JObject (fileEntry ''a.py'' ''x''), JObject (fileEntry ''c.py'' ''z'')] []
       = ([(''a.py'', JString ''x''), (''c.py'', JString ''z'')], None)"
    by code_simp
  from strict_extraction_omits_invalid_entries
         [of "samplePlatform [] offlineBackend" mixedEntries "[]"] h1
  have "collectFiles (samplePlatform [] offlineBackend) mixedEntries []
       = collectFiles (samplePlatform [] offlineBackend) (filter validEntry mixedEntries) []"
    by blast
  with h1 h2 h3 show ?thesis by simp
qed

lemma storeEntry_strings:
  "map_of e ''filename'' = Some (JString n) \<Longrightarrow> map_of e ''content'' = Some c \<Longrightarrow>
   storeEntry env m (JObject e) = setProperty m n c"
  by (simp add: storeEntry_def stringOf_def)

lemma validEntry_strings:
  "map_of e ''filename'' = Some (JString n) \<Longrightarrow> n \<noteq> [] \<Longrightarrow>
   map_of e ''content'' = Some c \<Longrightarrow> truthy c \<Longrightarrow> validEntry (JObject e)"
  by (simp add: validEntry_def hasTruthy_def truthyVal_def)

lemma extractFiles_strict:
  assumes "strictExtraction env answer st = (st1, fm, True)" and "fm \<noteq> []"
  shows "extractFiles env answer st = (st1, Inr fm)"
  using assms by (simp add: extractFiles_def needsFallback_def)

text \<open>
  Claim C4, as amended. Let the cleaned answer parse to an object whose \<open>files\<close> is an
  array of exactly three entries, each with a non-empty string as \<open>filename\<close> and a truthy
  \<open>content\<close>, the three names pairwise different and none of them \<open>__proto__\<close>. Then
  strategy 1 yields the File Map of exactly these three entries, in their order, the
  condition that guards strategy 2 is false, and the extraction returns that map.
\<close>

theorem three_valid_entries_extracted_strictly:
  assumes parse: "JSON_parse env (cleanLlmOutput answer) = Inr (JObject kvs)"
      and files: "map_of kvs ''files'' = Some (JArray [JObject e1, JObject e2, JObject e3])"
      and names: "map_of e1 ''filename'' = Some (JString n1)"
                 "map_of e2 ''filename'' = Some (JString n2)"
                 "map_of e3 ''filename'' = Some (JString n3)"
      and nonempty: "n1 \<noteq> []" "n2 \<noteq> []" "n3 \<noteq> []"
      and contents: "map_of e1 ''content'' = Some c1" "map_of e2 ''content'' = Some c2"
                    "map_of e3 ''content'' = Some c3"
      and truthy: "truthy c1" "truthy c2" "truthy c3"
      and different: "distinct [n1, n2, n3]"
      and ordinary: "''__proto__'' \<notin> set [n1, n2, n3]"
  shows "strictExtraction env answer st = (st, [(n1, c1), (n2, c2), (n3, c3)], True)
     \<and> \<not> needsFallback True [(n1, c1), (n2, c2), (n3, c3)]
     \<and> extractFiles env answer st = (st, Inr [(n1, c1), (n2, c2), (n3, c3)])"
proof -
  have v: "filter validEntry [JObject e1, JObject e2, JObject e3]
      = [JObject e1, JObject e2, JObject e3]"
    using validEntry_strings [OF names(1) nonempty(1) contents(1) truthy(1)]
      validEntry_strings [OF names(2) nonempty(2) contents(2) truthy(2)]
      validEntry_strings [OF names(3) nonempty(3) contents(3) truthy(3)]
    by simp
  have s: "foldl (storeEntry env) [] [JObject e1, JObject e2, JObject e3]
      = [(n1, c1), (n2, c2), (n3, c3)]"
    using different ordinary
    by (auto simp: storeEntry_strings [OF names(1) contents(1)]
          storeEntry_strings [OF names(2) contents(2)]
          storeEntry_strings [OF names(3) contents(3)] setProperty_def)
  have strict: "strictExtraction env answer st = (st, [(n1, c1), (n2, c2), (n3, c3)], True)"
    using strictExtraction_files [OF parse files, of st] v s by simp
  from strict extractFiles_strict [OF strict] show ?thesis
    by (simp add: needsFallback_def)
qed

theorem three_valid_entries_extracted_strictly_witness:
  "JSON_parse (samplePlatform [(threeFilesText, threeFiles)] offlineBackend)
      (cleanLlmOutput threeFilesText)
     = Inr (JObject [(''files'', JArray [JObject (fileEntry ''a.py'' ''x''),
                                         JObject (fileEntry ''b.py'' ''y''),
                                         JObject (fileEntry ''c.py'' ''z'')])])
   \<and> distinct [''a.py'', ''b.py'', ''c.py'']
   \<and> ''__proto__'' \<notin> set [''a.py'', ''b.py'', ''c.py'']
   \<and> extractFiles (samplePlatform [(threeFilesText, threeFiles)] offlineBackend)
         threeFilesText emptyRun
     = (emptyRun, Inr [(''a.py'', JString ''x''), (''b.py'', JString ''y''),
                       (''c.py'', JString ''z'')])"
proof -
  have parse: "JSON_parse (samplePlatform [(threeFilesText, threeFiles)] offlineBackend)
      (cleanLlmOutput threeFilesText)
     = Inr (JObject [(''files'', JArray [JObject (fileEntry ''a.py'' ''x''),
                                         JObject (fileEntry ''b.py'' ''y''),
                                         JObject (fileEntry ''c.py'' ''z'')])])"
    by code_simp
  have files: "map_of [(''files'', JArray [JObject (fileEntry ''a.py'' ''x''),
                                         JObject (fileEntry ''b.py'' ''y''),
                                         JObject (fileEntry ''c.py'' ''z'')])] ''files''
     = Some (JArray [JObject (fileEntry ''a.py'' ''x''), JObject (fileEntry ''b.py'' ''y''),
                     JObject (fileEntry ''c.py'' ''z'')])"
    by simp
  have names: "map_of (fileEntry ''a.py'' ''x'') ''filename'' = Some (JString ''a.py'')"
      "map_of (fileEntry ''b.py'' ''y'') ''filename'' = Some (JString ''b.py'')"
      "map_of (fileEntry ''c.py'' ''z'') ''filename'' = Some (JString ''c.py'')"
    by (simp_all add: fileEntry_def)
  have nonempty: "''a.py'' \<noteq> []" "''b.py'' \<noteq> []" "''c.py'' \<noteq> []"
    by simp_all
  have contents: "map_of (fileEntry ''a.py'' ''x'') ''content'' = Some (JString ''x'')"
      "map_of (fileEntry ''b.py'' ''y'') ''content'' = Some (JString ''y'')"
      "map_of (fileEntry ''c.py'' ''z'') ''content'' = Some (JString ''z'')"
    by (simp_all add: fileEntry_def)
  have truthy: "truthy (JString ''x'')" "truthy (JString ''y'')" "truthy (JString ''z'')"
    by simp_all
  have different: "distinct [''a.py'', ''b.py'', ''c.py'']"
    by simp
  have ordinary: "''__proto__'' \<notin> set [''a.py'', ''b.py'', ''c.py'']"
    by simp
  from three_valid_entries_extracted_strictly
         [OF parse files names nonempty contents truthy different ordinary, of emptyRun]
       parse different ordinary
  show ?thesis by simp
qed

text \<open>
  Claim C4 as stated fails: three entries with a name and a non-empty content each, yet
  the File Map has two entries. In the first answer two entries share the name \<open>a.py\<close> and
  the later content wins; in the second one entry is named \<open>__proto__\<close>, which an object
  created by \<open>{}\<close> does not take as a property of its own.
\<close>

theorem three_entries_give_two_files:
  "snd (extractFiles (samplePlatform [(duplicateFilesText, duplicateFiles)] offlineBackend)
          duplicateFilesText emptyRun)
     = Inr [(''a.py'', JString ''y''), (''b.py'', JString ''z'')]
   \<and> snd (extractFiles (samplePlatform [(protoFilesText, protoFiles)] offlineBackend)
          protoFilesText emptyRun)
     = Inr [(''a.py'', JString ''y''), (''b.py'', JString ''z'')]"
  by code_simp

lemma requests_strictExtraction [simp]:
  "requests (fst (strictExtraction env t st)) = requests st"
  by (simp add: strictExtraction_def Let_def
           split: sum.splits option.splits json.splits prod.splits)

lemma snd_strictExtraction_state:
  "snd (strictExtraction env t st) = snd (strictExtraction env t st')"
  by (simp add: strictExtraction_def Let_def
           split: sum.splits option.splits json.splits prod.splits)

lemma extractFiles_fails:
  assumes "fst (snd (strictExtraction env t emptyRun)) = []" and "execAll t = []"
  shows "snd (extractFiles env t st) = Inl extractionFailed"
    and "requests (fst (extractFiles env t st)) = requests st"
proof -
  obtain st1 fm ok where s: "strictExtraction env t st = (st1, fm, ok)"
    by (cases "strictExtraction env t st") auto
  have "snd (strictExtraction env t emptyRun) = (fm, ok)"
    using snd_strictExtraction_state [of env t st emptyRun] s by simp
  with assms(1) have "fm = []" by simp
  moreover have "requests st1 = requests st"
    using requests_strictExtraction [of env t st] s by simp
  ultimately show "snd (extractFiles env t st) = Inl extractionFailed"
    and "requests (fst (extractFiles env t st)) = requests st"
    using s assms(2) by (simp_all add: extractFiles_def needsFallback_def regexFallback_def)
qed

lemma runCoder_extraction_fails:
  assumes key: "resolveApiKey env (provider sel) (Some keys) = Some k" "k \<noteq> []"
      and answer: "transport env (provider sel) k (coderRequest env sel arch ctx) = Inr response"
      and strict: "fst (snd (strictExtraction env (response_text response) emptyRun)) = []"
      and tolerant: "execAll (response_text response) = []"
  shows "snd (runCoder env sel keys p arch ctx st) = Inl extractionFailed"
    and "requests (fst (runCoder env sel keys p arch ctx st))
           = requests st @ [(\<lparr>client_provider = provider sel, client_key = k\<rparr>,
                             coderRequest env sel arch ctx)]"
  using key answer extractFiles_fails [OF strict tolerant]
  by (simp_all add: runCoder_def Let_def truthyStr_def createLlmClient_key generateContent_def
        coderRequest_def)

lemma completeMigration_coder_fails:
  assumes "runArchitect env (cfg ARCHITECT) keys p ctx (onProgress st ARCHITECT) = (st1, Inr arch)"
      and "snd (runCoder env (cfg CODER) keys p arch ctx (onProgress st1 CODER)) = Inl e"
  shows "completeMigration env p ctx cfg keys st
           = (onProgress (fst (runCoder env (cfg CODER) keys p arch ctx (onProgress st1 CODER))) ERROR,
              Inl e)"
  using assms
  by (cases "runCoder env (cfg CODER) keys p arch ctx (onProgress st1 CODER)")
     (simp add: completeMigration_def)

text \<open>
  Claim C5. Let a credential be resolved and let the provider answer the Coder's request
  with a text for which strategy 1 stores no entry and the pattern of strategy 2 matches
  nowhere. Then the extraction, and with it \<open>runCoder\<close>, fails with the error
  \<open>Coder failed to generate files\<close> instead of returning an empty File Map; the stage has
  handed exactly one request to its client; and \<open>completeMigration\<close> reports \<open>ERROR\<close> right
  after \<open>CODER\<close>, returns the same error and sends no further request.
\<close>

theorem extraction_failure_is_fatal:
  assumes key: "resolveApiKey env (provider (cfg CODER)) (Some keys) = Some k" "k \<noteq> []"
      and answer: "transport env (provider (cfg CODER)) k (coderRequest env (cfg CODER) arch ctx)
                     = Inr response"
      and strict: "fst (snd (strictExtraction env (response_text response) emptyRun)) = []"
      and tolerant: "execAll (response_text response) = []"
  shows "snd (extractFiles env (response_text response) st) = Inl extractionFailed
     \<and> snd (runCoder env (cfg CODER) keys p arch ctx st) = Inl extractionFailed
     \<and> requests (fst (runCoder env (cfg CODER) keys p arch ctx st))
         = requests st @ [(\<lparr>client_provider = provider (cfg CODER), client_key = k\<rparr>,
                           coderRequest env (cfg CODER) arch ctx)]
     \<and> (\<forall>st1. runArchitect env (cfg ARCHITECT) keys p ctx (onProgress st ARCHITECT)
                  = (st1, Inr arch)
          \<longrightarrow> snd (completeMigration env p ctx cfg keys st) = Inl extractionFailed
            \<and> progress (fst (completeMigration env p ctx cfg keys st))
                = progress st @ [ARCHITECT, CODER, ERROR]
            \<and> requests (fst (completeMigration env p ctx cfg keys st))
                = requests st1 @ [(\<lparr>client_provider = provider (cfg CODER), client_key = k\<rparr>,
                                   coderRequest env (cfg CODER) arch ctx)])"
proof -
  note rc = runCoder_extraction_fails [OF key answer strict tolerant]
  have cm: "snd (completeMigration env p ctx cfg keys st) = Inl extractionFailed
            \<and> progress (fst (completeMigration env p ctx cfg keys st))
                = progress st @ [ARCHITECT, CODER, ERROR]
            \<and> requests (fst (completeMigration env p ctx cfg keys st))
                = requests st1 @ [(\<lparr>client_provider = provider (cfg CODER), client_key = k\<rparr>,
                                   coderRequest env (cfg CODER) arch ctx)]"
    if a: "runArchitect env (cfg ARCHITECT) keys p ctx (onProgress st ARCHITECT) = (st1, Inr arch)"
    for st1
  proof -
    have p1: "progress st1 = progress st @ [ARCHITECT]"
      using progress_runArchitect [of env "cfg ARCHITECT" keys p ctx "onProgress st ARCHITECT"] a
      by simp
    note c = completeMigration_coder_fails [OF a rc(1) [of p "onProgress st1 CODER"]]
    show ?thesis
      using c p1 rc(2) [of p "onProgress st1 CODER"] by simp
  qed
  from extractFiles_fails(1) [OF strict tolerant, of st] rc [of p st] cm show ?thesis
    by blast
qed

text \<open>The Coder's model answers with prose.\<close>

theorem extraction_failure_is_fatal_witness:
  "resolveApiKey (samplePlatform [] (backendByModel [(''coder'', ''Sorry, no code.'')]))
      (provider (sampleConfig CODER)) (Some sampleKeys) = Some ''g-key''
   \<and> transport (samplePlatform [] (backendByModel [(''coder'', ''Sorry, no code.'')]))
        (provider (sampleConfig CODER)) ''g-key''
        (coderRequest (samplePlatform [] (backendByModel [(''coder'', ''Sorry, no code.'')]))
           (sampleConfig CODER) ''plan'' [])
       = Inr \<lparr>response_text = ''Sorry, no code.'', response_usage = None\<rparr>
   \<and> fst (snd (strictExtraction
                 (samplePlatform [] (backendByModel [(''coder'', ''Sorry, no code.'')]))
                 ''Sorry, no code.'' emptyRun)) = []
   \<and> execAll ''Sorry, no code.'' = []
   \<and> snd (runCoder (samplePlatform [] (backendByModel [(''coder'', ''Sorry, no code.'')]))
             (sampleConfig CODER) sampleKeys JNull ''plan'' [] emptyRun)
       = Inl extractionFailed
   \<and> length (requests (fst (runCoder
                 (samplePlatform [] (backendByModel [(''coder'', ''Sorry, no code.'')]))
                 (sampleConfig CODER) sampleKeys JNull ''plan'' [] emptyRun))) = 1"
proof -
  let ?P = "samplePlatform [] (backendByModel [(''coder'', ''Sorry, no code.'')])"
  let ?r = "\<lparr>response_text = ''Sorry, no code.'', response_usage = None\<rparr>"
  have h1: "resolveApiKey ?P (provider (sampleConfig CODER)) (Some sampleKeys) = Some ''g-key''"
    by (simp add: resolveApiKey_def sampleConfig_def sampleKeys_def)
  have h2: "''g-key'' \<noteq> []"
    by simp
  have h3: "transport ?P (provider (sampleConfig CODER)) ''g-key''
              (coderRequest ?P (sampleConfig CODER) ''plan'' []) = Inr ?r"
    by (simp add: samplePlatform_def backendByModel_def coderRequest_def sampleConfig_def)
  have h4: "fst (snd (strictExtraction ?P (response_text ?r) emptyRun)) = []"
    by code_simp
  have h5: "execAll (response_text ?r) = []"
    by code_simp
  from extraction_failure_is_fatal
         [where cfg = sampleConfig and p = JNull and st = emptyRun, OF h1 h2 h3 h4 h5]
  have "snd (runCoder ?P (sampleConfig CODER) sampleKeys JNull ''plan'' [] emptyRun)
       = Inl extractionFailed
     \<and> length (requests (fst (runCoder ?P (sampleConfig CODER) sampleKeys JNull ''plan'' []
                                 emptyRun))) = 1"
    by (simp add: emptyRun_def)
  with h1 h3 h4 h5 show ?thesis by simp
qed

section \<open>Properties of the text cleaning\<close>

lemma occursIn_Nil [simp]: "occursIn p [] \<longleftrightarrow> p = []"
  by (simp add: occursIn_def)

lemma occursIn_Cons: "occursIn p (c # cs) \<longleftrightarrow> prefix p (c # cs) \<or> occursIn p cs"
  by (simp add: occursIn_def split: option.splits)

lemma occursIn_empty [simp]: "occursIn [] s"
  by (cases s) (simp_all add: occursIn_Cons)

lemma occursIn_append_right: "occursIn p s \<Longrightarrow> occursIn p (s @ b)"
proof (induction s)
  case Nil
  then show ?case by simp
next
  case (Cons c cs)
  then show ?case
    using prefix_prefix [of p "c # cs" b] by (auto simp: occursIn_Cons)
qed

lemma occursIn_append_left: "occursIn p s \<Longrightarrow> occursIn p (a @ s)"
  by (induction a) (simp_all add: occursIn_Cons)

subsection \<open>Trimming\<close>

lemma trim_decomposition:
  "s = takeWhile isWhiteSpace s @ trim s
         @ rev (takeWhile isWhiteSpace (rev (dropWhile isWhiteSpace s)))"
proof -
  let ?u = "dropWhile isWhiteSpace s"
  have "rev ?u = takeWhile isWhiteSpace (rev ?u) @ dropWhile isWhiteSpace (rev ?u)"
    by simp
  then have "?u = rev (dropWhile isWhiteSpace (rev ?u)) @ rev (takeWhile isWhiteSpace (rev ?u))"
    by (metis rev_append rev_rev_ident)
  then have "?u = trim s @ rev (takeWhile isWhiteSpace (rev ?u))"
    by (simp add: trim_def)
  moreover have "s = takeWhile isWhiteSpace s @ ?u"
    by simp
  ultimately show ?thesis by metis
qed

lemma occursIn_trim: "occursIn p (trim s) \<Longrightarrow> occursIn p s"
proof -
  assume "occursIn p (trim s)"
  then have "occursIn p (takeWhile isWhiteSpace s @ trim s
         @ rev (takeWhile isWhiteSpace (rev (dropWhile isWhiteSpace s))))"
    by (intro occursIn_append_left occursIn_append_right)
  then show ?thesis
    using trim_decomposition [of s] by simp
qed

lemma length_trim: "length (trim s) \<le> length s"
proof -
  have "length (trim s) \<le> length (dropWhile isWhiteSpace s)"
    unfolding trim_def using length_dropWhile_le [of isWhiteSpace "rev (dropWhile isWhiteSpace s)"]
    by simp
  also have "\<dots> \<le> length s" by (rule length_dropWhile_le)
  finally show ?thesis .
qed

lemma isTrimmed_trim: "isTrimmed (trim s)"
proof -
  let ?u = "dropWhile isWhiteSpace s"
  let ?v = "trim s"
  have rv: "rev ?v = dropWhile isWhiteSpace (rev ?u)"
    by (simp add: trim_def)
  have behind: "dropWhile isWhiteSpace (rev ?v) = rev ?v"
    by (simp add: rv)
  have front: "dropWhile isWhiteSpace ?v = ?v"
  proof (cases "?v = []")
    case True
    then show ?thesis by simp
  next
    case False
    have u: "?u = ?v @ rev (takeWhile isWhiteSpace (rev ?u))"
      by (metis rv rev_append rev_rev_ident takeWhile_dropWhile_id)
    with False have "hd ?v = hd ?u" by (metis hd_append2)
    moreover from u False have "?u \<noteq> []"
      by (metis append_is_Nil_conv)
    then have "\<not> isWhiteSpace (hd ?u)" by (rule hd_dropWhile)
    ultimately show ?thesis
      using False by (simp add: dropWhile_eq_self_iff)
  qed
  from front behind show ?thesis by (simp add: isTrimmed_def)
qed

lemma trim_isTrimmed: "isTrimmed s \<Longrightarrow> trim s = s"
  by (simp add: isTrimmed_def trim_def)

subsection \<open>Fences\<close>

lemma removeFences_fence:
  "prefix ''```'' (c # cs) \<Longrightarrow>
   removeFences (c # cs)
     = removeFences (dropLanguageTag [''json'', ''python'', ''bash''] (drop 3 (c # cs)))"
  by (simp only: removeFences.simps if_True)

lemma removeFences_other:
  "\<not> prefix ''```'' (c # cs) \<Longrightarrow> removeFences (c # cs) = c # removeFences cs"
  by (simp only: removeFences.simps if_False)

lemma prefix_shorter: "prefix (x # y # p) s \<Longrightarrow> prefix [x] s"
  by (cases s) auto

lemma removeFences_no_backtick:
  "\<not> prefix ''`'' s \<Longrightarrow> \<not> prefix ''`'' (removeFences s)"
  by (cases s) auto

lemma removeFences_no_two_backticks:
  assumes n: "\<not> prefix ''``'' s"
  shows "\<not> prefix ''``'' (removeFences s)"
proof (cases s)
  case Nil
  then show ?thesis by simp
next
  case (Cons c cs)
  show ?thesis
  proof (cases "c = CHR ''`''")
    case False
    then have "\<not> prefix ''```'' (c # cs)" by simp
    then have "removeFences (c # cs) = c # removeFences cs" by (rule removeFences_other)
    with Cons False show ?thesis by simp
  next
    case True
    with n Cons have one: "\<not> prefix ''`'' cs" by simp
    have "\<not> prefix ''``'' cs"
    proof
      assume "prefix ''``'' cs"
      then have "prefix ''`'' cs" by (rule prefix_shorter)
      with one show False by simp
    qed
    with True have "\<not> prefix ''```'' (c # cs)" by simp
    then have "removeFences (c # cs) = c # removeFences cs" by (rule removeFences_other)
    with Cons removeFences_no_backtick [OF one] show ?thesis by simp
  qed
qed

lemma removeFences_keeps_head:
  assumes "\<not> prefix ''```'' (c # cs)"
  shows "\<not> prefix ''```'' (c # removeFences cs)"
proof (cases "c = CHR ''`''")
  case False
  then show ?thesis by simp
next
  case True
  with assms have "\<not> prefix ''``'' cs" by simp
  then have "\<not> prefix ''``'' (removeFences cs)" by (rule removeFences_no_two_backticks)
  then show ?thesis by simp
qed

lemma removeFences_no_fence: "\<not> occursIn ''```'' (removeFences s)"
proof (induction s rule: removeFences.induct)
  case 1
  show ?case by simp
next
  case (2 c cs)
  show ?case
  proof (cases "prefix ''```'' (c # cs)")
    case True
    from 2(1) [OF True] show ?thesis
      by (simp add: removeFences_fence [OF True] del: removeFences.simps Cons_prefix_Cons)
  next
    case False
    from 2(2) [OF False] removeFences_keeps_head [OF False] show ?thesis
      by (simp add: removeFences_other [OF False] occursIn_Cons
               del: removeFences.simps Cons_prefix_Cons)
  qed
qed

lemma removeFences_id: "\<not> occursIn ''```'' s \<Longrightarrow> removeFences s = s"
proof (induction s)
  case Nil
  show ?case by simp
next
  case (Cons c cs)
  from Cons.prems have no: "\<not> prefix ''```'' (c # cs)" and rest: "\<not> occursIn ''```'' cs"
    by (simp_all add: occursIn_Cons del: Cons_prefix_Cons)
  from Cons.IH [OF rest] show ?case
    by (simp only: removeFences_other [OF no])
qed

lemma length_removeFences: "length (removeFences s) \<le> length s"
proof (induction s rule: removeFences.induct)
  case 1
  show ?case by simp
next
  case (2 c cs)
  show ?case
  proof (cases "prefix ''```'' (c # cs)")
    case True
    have "length (removeFences (c # cs))
        \<le> length (dropLanguageTag [''json'', ''python'', ''bash''] (drop 3 (c # cs)))"
      using 2(1) [OF True] by (simp only: removeFences_fence [OF True])
    also have "\<dots> \<le> length (drop 3 (c # cs))"
      by (rule dropLanguageTag_length)
    also have "\<dots> \<le> length (c # cs)" by simp
    finally show ?thesis .
  next
    case False
    from 2(2) [OF False] show ?thesis
      by (simp only: removeFences_other [OF False] length_Cons Suc_le_mono)
  qed
qed

subsection \<open>Think blocks\<close>

lemma removeThinkBlocks_block:
  "prefix ''<think>'' (c # cs) \<Longrightarrow>
   splitAtFirst ''</think>'' (drop 7 (c # cs)) = Some (body, rest) \<Longrightarrow>
   removeThinkBlocks (c # cs) = removeThinkBlocks rest"
  by (simp only: removeThinkBlocks.simps if_True option.case prod.case)

lemma removeThinkBlocks_open:
  "prefix ''<think>'' (c # cs) \<Longrightarrow>
   splitAtFirst ''</think>'' (drop 7 (c # cs)) = None \<Longrightarrow>
   removeThinkBlocks (c # cs) = c # removeThinkBlocks cs"
  by (simp only: removeThinkBlocks.simps if_True option.case)

lemma removeThinkBlocks_other:
  "\<not> prefix ''<think>'' (c # cs) \<Longrightarrow> removeThinkBlocks (c # cs) = c # removeThinkBlocks cs"
  by (simp only: removeThinkBlocks.simps if_False)

lemma removeThinkBlocks_id: "\<not> hasThinkBlock s \<Longrightarrow> removeThinkBlocks s = s"
proof (induction s)
  case Nil
  show ?case by simp
next
  case (Cons c cs)
  from Cons.prems [unfolded hasThinkBlock.simps]
  have rest: "\<not> hasThinkBlock cs"
    and no: "\<not> (prefix ''<think>'' (c # cs) \<and> occursIn ''</think>'' (drop 7 (c # cs)))"
    by blast+
  note ih = Cons.IH [OF rest]
  show ?case
  proof (cases "prefix ''<think>'' (c # cs)")
    case False
    with ih show ?thesis by (simp only: removeThinkBlocks_other [OF False])
  next
    case True
    with no have "splitAtFirst ''</think>'' (drop 7 (c # cs)) = None"
      unfolding occursIn_def by blast
    with ih show ?thesis by (simp only: removeThinkBlocks_open [OF True])
  qed
qed

lemma length_removeThinkBlocks: "length (removeThinkBlocks s) \<le> length s"
proof (induction s rule: removeThinkBlocks.induct)
  case 1
  show ?case by simp
next
  case (2 c cs)
  show ?case
  proof (cases "prefix ''<think>'' (c # cs)")
    case False
    from 2(3) [OF False] show ?thesis
      by (simp only: removeThinkBlocks_other [OF False] length_Cons Suc_le_mono)
  next
    case True
    show ?thesis
    proof (cases "splitAtFirst ''</think>'' (drop 7 (c # cs))")
      case None
      from 2(1) [OF True None] show ?thesis
        by (simp only: removeThinkBlocks_open [OF True None] length_Cons Suc_le_mono)
    next
      case (Some br)
      obtain body rest where br: "br = (body, rest)" by (cases br)
      note s = Some [unfolded br]
      have "length (removeThinkBlocks (c # cs)) \<le> length rest"
        using 2(2) [OF True s refl] by (simp only: removeThinkBlocks_block [OF True s])
      also have "length rest \<le> length (drop 7 (c # cs))"
        using s by (rule splitAtFirst_length)
      also have "\<dots> \<le> length (c # cs)" by simp
      finally show ?thesis .
    qed
  qed
qed

lemma removeThinkBlocks_shrinks:
  "hasThinkBlock s \<Longrightarrow> length (removeThinkBlocks s) < length s"
proof (induction s)
  case Nil
  then show ?case by simp
next
  case (Cons c cs)
  show ?case
  proof (cases "prefix ''<think>'' (c # cs) \<and> occursIn ''</think>'' (drop 7 (c # cs))")
    case True
    then have open_marker: "prefix ''<think>'' (c # cs)" by blast
    from True have "splitAtFirst ''</think>'' (drop 7 (c # cs)) \<noteq> None"
      unfolding occursIn_def by blast
    then obtain body rest
      where s: "splitAtFirst ''</think>'' (drop 7 (c # cs)) = Some (body, rest)"
      by (cases "splitAtFirst ''</think>'' (drop 7 (c # cs))") auto
    have "length (removeThinkBlocks (c # cs)) = length (removeThinkBlocks rest)"
      by (simp only: removeThinkBlocks_block [OF open_marker s])
    also have "\<dots> \<le> length rest"
      by (rule length_removeThinkBlocks)
    also have "length rest \<le> length (drop 7 (c # cs))"
      using s by (rule splitAtFirst_length)
    also have "\<dots> < length (c # cs)" by simp
    finally show ?thesis .
  next
    case False
    with Cons.prems [unfolded hasThinkBlock.simps] have "hasThinkBlock cs"
      by blast
    then have ih: "length (removeThinkBlocks cs) < length cs" by (rule Cons.IH)
    have "removeThinkBlocks (c # cs) = c # removeThinkBlocks cs"
    proof (cases "prefix ''<think>'' (c # cs)")
      case no: False
      then show ?thesis by (rule removeThinkBlocks_other)
    next
      case yes: True
      with False have "splitAtFirst ''</think>'' (drop 7 (c # cs)) = None"
        unfolding occursIn_def by blast
      with yes show ?thesis by (rule removeThinkBlocks_open)
    qed
    with ih show ?thesis by simp
  qed
qed

subsection \<open>Cleaning twice\<close>

lemma cleanLlmOutput_trimmed: "isTrimmed (cleanLlmOutput s)"
  by (simp add: cleanLlmOutput_def Let_def isTrimmed_trim)

lemma cleanLlmOutput_no_fence: "\<not> occursIn ''```'' (cleanLlmOutput s)"
  using occursIn_trim [of "''```''" "removeFences (trim (removeThinkBlocks s))"]
    removeFences_no_fence [of "trim (removeThinkBlocks s)"]
  by (auto simp: cleanLlmOutput_def Let_def)

lemma length_cleanLlmOutput: "length (cleanLlmOutput s) \<le> length (removeThinkBlocks s)"
proof -
  have "length (cleanLlmOutput s) \<le> length (removeFences (trim (removeThinkBlocks s)))"
    by (simp add: cleanLlmOutput_def Let_def length_trim)
  also have "\<dots> \<le> length (trim (removeThinkBlocks s))" by (rule length_removeFences)
  also have "\<dots> \<le> length (removeThinkBlocks s)" by (rule length_trim)
  finally show ?thesis .
qed

text \<open>
  Claim C7, as amended. Cleaning a cleaned text changes nothing exactly when the cleaned
  text holds no think block: for every text \<open>s\<close>, \<open>clean (clean s) = clean s\<close> if and only
  if in \<open>clean s\<close> no opening marker \<open><think>\<close> has a closing marker \<open></think>\<close>
  behind it. (A cleaned text is always trimmed and free of fences; a think block can be
  left when removing a block or a fence joins the two halves of an opening marker.)
\<close>

theorem cleaning_twice:
  "cleanLlmOutput (cleanLlmOutput s) = cleanLlmOutput s \<longleftrightarrow> \<not> hasThinkBlock (cleanLlmOutput s)"
proof
  assume "\<not> hasThinkBlock (cleanLlmOutput s)"
  then have "removeThinkBlocks (cleanLlmOutput s) = cleanLlmOutput s"
    by (rule removeThinkBlocks_id)
  moreover have "trim (cleanLlmOutput s) = cleanLlmOutput s"
    using cleanLlmOutput_trimmed by (rule trim_isTrimmed)
  moreover have "removeFences (cleanLlmOutput s) = cleanLlmOutput s"
    using cleanLlmOutput_no_fence by (rule removeFences_id)
  ultimately show "cleanLlmOutput (cleanLlmOutput s) = cleanLlmOutput s"
    by (simp add: cleanLlmOutput_def [of "cleanLlmOutput s"] Let_def)
next
  assume same: "cleanLlmOutput (cleanLlmOutput s) = cleanLlmOutput s"
  show "\<not> hasThinkBlock (cleanLlmOutput s)"
  proof
    assume "hasThinkBlock (cleanLlmOutput s)"
    then have "length (removeThinkBlocks (cleanLlmOutput s)) < length (cleanLlmOutput s)"
      by (rule removeThinkBlocks_shrinks)
    with length_cleanLlmOutput [of "cleanLlmOutput s"] same show False by simp
  qed
qed


text \<open>A reasoning block followed by fenced JSON: the cleaned text is \<open>{}\<close>, and cleaning
  it again changes nothing.\<close>

theorem cleaning_twice_witness:
  "cleanLlmOutput ''<think>plan</think> ```json{}``` '' = ''{}''
   \<and> \<not> hasThinkBlock (cleanLlmOutput ''<think>plan</think> ```json{}``` '')
   \<and> cleanLlmOutput (cleanLlmOutput ''<think>plan</think> ```json{}``` '')
       = cleanLlmOutput ''<think>plan</think> ```json{}``` ''"
proof -
  have cleaned: "cleanLlmOutput ''<think>plan</think> ```json{}``` '' = ''{}''"
    by code_simp
  have none: "\<not> hasThinkBlock (cleanLlmOutput ''<think>plan</think> ```json{}``` '')"
    by (simp add: cleaned occursIn_def)
  from cleaning_twice [of "''<think>plan</think> ```json{}``` ''"] none
  have "cleanLlmOutput (cleanLlmOutput ''<think>plan</think> ```json{}``` '')
       = cleanLlmOutput ''<think>plan</think> ```json{}``` ''"
    by blast
  with cleaned none show ?thesis by blast
qed

text \<open>
  Claim C7 as stated fails. In the first text a think block sits inside an opening marker,
  in the second a fence does; one cleaning leaves \<open><think>y</think>\<close>, a second one leaves
  the empty text.
\<close>

theorem cleaning_is_not_idempotent:
  "cleanLlmOutput ''<th<think>x</think>ink>y</think>'' = ''<think>y</think>''
   \<and> cleanLlmOutput (cleanLlmOutput ''<th<think>x</think>ink>y</think>'') = []
   \<and> cleanLlmOutput ''<thi```nk>y</think>'' = ''<think>y</think>''
   \<and> cleanLlmOutput (cleanLlmOutput ''<thi```nk>y</think>'') = []"
  by code_simp

end
